theory Spec2Isabelle
  imports Main "HOL-Library.FSet" "HOL-Library.List_Lexorder" "HOL-Library.Char_ord"
begin

section \<open>Strings\<close>

text \<open>
  Python strings are modelled as \<^typ>\<open>string\<close>. The model covers ASCII text:
  \<open>str.lower\<close> maps \<open>A\<close>..\<open>Z\<close> (codes 65..90) to \<open>a\<close>..\<open>z\<close> by setting the bit
  of value 32 and leaves every other character alone.
\<close>

fun lower_char :: "char \<Rightarrow> char" where
  "lower_char (Char b0 b1 b2 b3 b4 b5 b6 b7) =
     (let n = of_char (Char b0 b1 b2 b3 b4 b5 b6 b7) :: nat
      in if 65 \<le> n \<and> n \<le> 90 then Char b0 b1 b2 b3 b4 True b6 b7
         else Char b0 b1 b2 b3 b4 b5 b6 b7)"

definition lower :: "string \<Rightarrow> string" where
  "lower s = map lower_char s"

text \<open>\<open>s.split(c)\<close>: the pieces between the occurrences of \<open>c\<close>; never an empty list.\<close>

fun split_sep :: "char \<Rightarrow> string \<Rightarrow> string list" where
  "split_sep c [] = [[]]"
| "split_sep c (x # xs) =
     (if x = c then [] # split_sep c xs
      else (case split_sep c xs of [] \<Rightarrow> [[x]] | y # ys \<Rightarrow> (x # y) # ys))"

text \<open>\<open>sep.join(xs)\<close>.\<close>

fun join_sep :: "string \<Rightarrow> string list \<Rightarrow> string" where
  "join_sep sep [] = []"
| "join_sep sep [x] = x"
| "join_sep sep (x # y # ys) = x @ sep @ join_sep sep (y # ys)"

text \<open>\<open>s.rfind(c)\<close>: the index of the last occurrence of \<open>c\<close>, or \<open>-1\<close>.\<close>

fun rfind :: "char \<Rightarrow> string \<Rightarrow> int" where
  "rfind c [] = - 1"
| "rfind c (x # xs) =
     (let i = rfind c xs in if 0 \<le> i then i + 1 else if x = c then 0 else - 1)"

text \<open>\<open>s.partition(c)\<close>: the text before the first \<open>c\<close>, the separator, the text after it;
  \<open>(s, '', '')\<close> when \<open>c\<close> does not occur.\<close>

definition partition_sep :: "char \<Rightarrow> string \<Rightarrow> string \<times> string \<times> string" where
  "partition_sep c s =
     (let rest = dropWhile (\<lambda>x. x \<noteq> c) s
      in if rest = [] then (s, [], []) else (takeWhile (\<lambda>x. x \<noteq> c) s, [c], tl rest))"

definition startswith :: "string \<Rightarrow> char \<Rightarrow> bool" where
  "startswith s c = (case s of [] \<Rightarrow> False | x # _ \<Rightarrow> x = c)"

definition endswith :: "string \<Rightarrow> char \<Rightarrow> bool" where
  "endswith s c = (case rev s of [] \<Rightarrow> False | x # _ \<Rightarrow> x = c)"

section \<open>Paths\<close>

text \<open>
  \<open>pathlib.Path\<close> in its POSIX flavour (CPython 3.12): a path value is its root
  (\<open>''\<close>, \<open>'/'\<close> or \<open>'//'\<close>) and its tail, the list of its components. The drive is
  always empty on POSIX and is left out.
\<close>

record path =
  root :: string
  tail :: "string list"

text \<open>\<open>posixpath.splitroot\<close>, without the drive.\<close>

definition splitroot :: "string \<Rightarrow> string \<times> string" where
  "splitroot p =
     (if take 1 p \<noteq> ''/'' then ([], p)
      else if take 1 (drop 1 p) \<noteq> ''/'' \<or> take 1 (drop 2 p) = ''/'' then (''/'', drop 1 p)
      else (take 2 p, drop 2 p))"

text \<open>\<open>PurePath._parse_path\<close>: empty and \<open>'.'\<close> components are dropped.\<close>

definition parse_path :: "string \<Rightarrow> string \<times> string list" where
  "parse_path p =
     (if p = [] then ([], [])
      else (let (rt, rel) = splitroot p
            in (rt, filter (\<lambda>x. x \<noteq> [] \<and> x \<noteq> ''.'') (split_sep CHR ''/'' rel))))"

definition Path :: "string \<Rightarrow> path" where
  "Path s = (let (rt, tl) = parse_path s in \<lparr>root = rt, tail = tl\<rparr>)"

definition format_parsed_parts :: "path \<Rightarrow> string" where
  "format_parsed_parts p =
     (if root p \<noteq> [] then root p @ join_sep ''/'' (tail p) else join_sep ''/'' (tail p))"

text \<open>\<open>os.fspath(p)\<close>, which is \<open>str(p)\<close>: the empty path prints as \<open>'.'\<close>.\<close>

definition fspath :: "path \<Rightarrow> string" where
  "fspath p = (let s = format_parsed_parts p in if s = [] then ''.'' else s)"

text \<open>Path equality compares the string forms (\<open>_str_normcase\<close>, case sensitive on POSIX).\<close>

definition path_eq :: "path \<Rightarrow> path \<Rightarrow> bool" where
  "path_eq p q = (fspath p = fspath q)"

definition name :: "path \<Rightarrow> string" where
  "name p = (if tail p = [] then [] else last (tail p))"

definition suffix :: "path \<Rightarrow> string" where
  "suffix p =
     (let nm = name p; i = rfind CHR ''.'' nm
      in if 0 < i \<and> i < int (length nm) - 1 then drop (nat i) nm else [])"

definition parent :: "path \<Rightarrow> path" where
  "parent p = (if tail p = [] then p else \<lparr>root = root p, tail = butlast (tail p)\<rparr>)"

definition parts :: "path \<Rightarrow> string list" where
  "parts p = (if root p \<noteq> [] then root p # tail p else tail p)"

text \<open>\<open>posixpath.join(a, b)\<close>.\<close>

definition posix_join :: "string \<Rightarrow> string \<Rightarrow> string" where
  "posix_join a b =
     (if startswith b CHR ''/'' then b
      else if a = [] \<or> endswith a CHR ''/'' then a @ b
      else a @ ''/'' @ b)"

text \<open>
  \<open>p / key\<close>: the raw string of \<open>p\<close> joined with \<open>key\<close> and parsed again. A path made by
  \<open>parent\<close> has \<open>format_parsed_parts\<close> as its raw string; a path that is its own parent
  keeps the string it was made from, which differs from that at most by \<open>'.'\<close> and empty
  components, which parsing drops.
\<close>

definition joinpath :: "path \<Rightarrow> string \<Rightarrow> path" where
  "joinpath p key = Path (posix_join (format_parsed_parts p) key)"

text \<open>
  The path values that parsing produces: one of the three roots, and components that
  are not empty, not \<open>'.'\<close> and hold no separator.
\<close>

definition wf_path :: "path \<Rightarrow> bool" where
  "wf_path p =
     ((root p = [] \<or> root p = ''/'' \<or> root p = ''//'')
      \<and> list_all (\<lambda>x. x \<noteq> [] \<and> x \<noteq> ''.'' \<and> CHR ''/'' \<notin> set x) (tail p))"

text \<open>\<open>posixpath.isabs\<close> on the string form.\<close>

definition isabs :: "string \<Rightarrow> bool" where
  "isabs s = startswith s CHR ''/''"

section \<open>Errors, warnings and events\<close>

text \<open>
  One constructor for each \<open>raise\<close> of the module and of the path operations it calls,
  carrying the values its message interpolates:
  \<^item> \<open>OverwriteWithRaiseIfExists\<close>: \<open>ValueError('overwrite_filepath cannot be combined
    with raise_if_result_exists')\<close>;
  \<^item> \<open>FormatRequired\<close>, \<open>FilepathRequired\<close>: the two \<open>RequiredArgumentError\<close>s of the
    default-naming mode;
  \<^item> \<open>SameFile outfile_name filepath_name\<close>: \<open>ValueError('outfile ... must be different
    from input file ...')\<close>;
  \<^item> \<open>OutputFileExists result\<close>: \<open>FileExistsError('output file exists: ...')\<close>;
  \<^item> \<open>MissingSuffix outfile\<close> and \<open>UnknownFormat suffix outfile format supported\<close>: the
    two \<open>ValueError\<close>s of \<open>infer_rendering_format\<close>;
  \<^item> \<open>AssertionFailed suffix\<close>: the \<open>assert\<close> of \<open>infer_rendering_format\<close>;
  \<^item> \<open>CannotInferFormat suffix outfile supported\<close>: the \<open>RequiredArgumentError\<close> of
    \<open>get_rendering_format\<close>, whose message ends with the list of supported suffixes;
  \<^item> \<open>InvalidSuffix suffix\<close>, \<open>EmptyName path\<close>: the \<open>ValueError\<close>s of
    \<open>Path.with_suffix\<close>.
\<close>

datatype error =
    OverwriteWithRaiseIfExists
  | FormatRequired
  | FilepathRequired
  | SameFile string string
  | OutputFileExists string
  | MissingSuffix string
  | UnknownFormat string string string "string list"
  | AssertionFailed string
  | CannotInferFormat string string "string list"
  | InvalidSuffix string
  | EmptyName string

text \<open>
  \<open>UnknownSuffixWarning suffix format\<close> and \<open>FormatSuffixMismatchWarning inferred format\<close>,
  the two categories passed to \<open>warnings.warn\<close>.
\<close>

datatype warning =
    UnknownSuffixWarning string string
  | FormatSuffixMismatchWarning string string

text \<open>\<open>Path.with_suffix\<close>.\<close>

definition with_suffix :: "path \<Rightarrow> string \<Rightarrow> error + path" where
  "with_suffix p sfx =
     (if CHR ''/'' \<in> set sfx then Inl (InvalidSuffix sfx)
      else if (sfx \<noteq> [] \<and> \<not> startswith sfx CHR ''.'') \<or> sfx = ''.'' then Inl (InvalidSuffix sfx)
      else (let nm = name p
            in if nm = [] then Inl (EmptyName (fspath p))
               else (let old_suffix = suffix p;
                         nm' = (if old_suffix = [] then nm @ sfx
                                else take (length nm - length old_suffix) nm @ sfx)
                     in Inr \<lparr>root = root p, tail = butlast (tail p) @ [nm']\<rparr>)))"

section \<open>Format resolution\<close>

text \<open>
  \<open>parameters.FORMATS\<close> is not part of the module; it is a parameter, a finite set of
  format names. \<open>sorted\<close> orders strings lexicographically by character code.
\<close>

definition get_supported_formats :: "string fset \<Rightarrow> string list" where
  "get_supported_formats FORMATS = sorted_list_of_fset FORMATS"

definition get_supported_suffixes :: "string fset \<Rightarrow> string list" where
  "get_supported_suffixes FORMATS = map (\<lambda>format. ''.'' @ format) (get_supported_formats FORMATS)"

definition promote_pathlike :: "string option \<Rightarrow> path option" where
  "promote_pathlike filepath = (case filepath of None \<Rightarrow> None | Some s \<Rightarrow> Some (Path s))"

text \<open>
  Modelled from the spec: \<open>parameters.verify_format\<close> is not part of the module. The spec
  has the lower-cased suffix validated against the supported-format set; the check
  fails exactly when the format is not a member.
\<close>

definition verify_format :: "string fset \<Rightarrow> string \<Rightarrow> bool" where
  "verify_format FORMATS format = (format |\<in>| FORMATS)"

definition infer_rendering_format :: "string fset \<Rightarrow> path \<Rightarrow> error + string" where
  "infer_rendering_format FORMATS outfile =
     (if suffix outfile = [] then Inl (MissingSuffix (fspath outfile))
      else (case partition_sep CHR ''.'' (suffix outfile) of
              (start, sep, format0) \<Rightarrow>
                if \<not> (sep \<noteq> [] \<and> start = []) then Inl (AssertionFailed (suffix outfile))
                else (let format' = lower format0
                      in if \<not> verify_format FORMATS format'
                         then Inl (UnknownFormat (suffix outfile) (fspath outfile) format'
                                     (get_supported_suffixes FORMATS))
                         else Inr format')))"

text \<open>
  The result and the warnings emitted, in order. Only the \<open>ValueError\<close>s of
  \<open>infer_rendering_format\<close> are caught; a failed assertion propagates.
\<close>

definition get_rendering_format ::
    "string fset \<Rightarrow> path \<Rightarrow> string option \<Rightarrow> (error + string) \<times> warning list" where
  "get_rendering_format FORMATS outfile format =
     (case infer_rendering_format FORMATS outfile of
        Inl (AssertionFailed s) \<Rightarrow> (Inl (AssertionFailed s), [])
      | Inl _ \<Rightarrow>
          (case format of
             None \<Rightarrow> (Inl (CannotInferFormat (suffix outfile) (fspath outfile)
                              (get_supported_suffixes FORMATS)), [])
           | Some f \<Rightarrow> (Inr f, [UnknownSuffixWarning (suffix outfile) (''.'' @ f)]))
      | Inr result \<Rightarrow>
          (case format of
             None \<Rightarrow> (Inr result, [])
           | Some f \<Rightarrow>
               if lower f \<noteq> result then (Inr f, [FormatSuffixMismatchWarning result f])
               else (Inr result, [])))"

section \<open>Rendering\<close>

text \<open>
  The arguments of one call of \<open>render\<close>, by name; an absent argument is \<open>None\<close>. A
  path-like argument is given by its string (\<open>os.fspath\<close>). The model is of the body of
  \<open>render\<close>; the decorator around it only concerns arguments passed by position.
\<close>

record call =
  engine :: string
  format :: "string option"
  filepath :: "string option"
  renderer :: "string option"
  formatter :: "string option"
  quiet :: bool
  outfile :: "string option"
  raise_if_result_exists :: bool
  overwrite_filepath :: bool

text \<open>
  What the module takes from outside itself, as parameters. \<open>'w\<close> is the state of the
  file system, \<open>'c\<close> and \<open>'x\<close> are the errors of the command builder and of the process
  runner.
  \<^item> \<open>FORMATS\<close> and \<open>DEFAULT_SOURCE_EXTENSION\<close>: the constants of \<open>parameters\<close> and
    \<open>_defaults\<close>;
  \<^item> \<open>command engine format renderer formatter\<close>: \<open>dot_command.command\<close>, which returns
    the start of the command line or raises;
  \<^item> \<open>resolve\<close>: \<open>Path.resolve\<close>, the absolute form of a path in the current state,
    taken as total;
  \<^item> \<open>os_path_exists\<close>: \<open>os.path.exists\<close>;
  \<^item> \<open>run_check cmd cwd quiet\<close>: \<open>execute.run_check\<close> (always called with
    \<open>capture_output=True\<close>), which runs the engine: the error it raises, if any, and the
    state it leaves.
\<close>

record ('w, 'c, 'x) system =
  FORMATS :: "string fset"
  DEFAULT_SOURCE_EXTENSION :: string
  command :: "string \<Rightarrow> string \<Rightarrow> string option \<Rightarrow> string option \<Rightarrow> 'c + string list"
  resolve :: "'w \<Rightarrow> path \<Rightarrow> path"
  os_path_exists :: "'w \<Rightarrow> string \<Rightarrow> bool"
  run_check :: "string list \<Rightarrow> string option \<Rightarrow> bool \<Rightarrow> 'w \<Rightarrow> 'x option \<times> 'w"

text \<open>What \<open>render\<close> raises: an error of its own, or one of a collaborator.\<close>

datatype ('c, 'x) raised =
    Raised error
  | CommandRaised 'c
  | RunCheckRaised 'x

text \<open>
  What a call does besides returning, in order: the warnings it emits, the paths it
  resolves, the existence tests it makes, and the engine runs it starts.
\<close>

datatype event =
    WarningsWarn warning
  | PathResolve path
  | OsPathExists string
  | RunCheck "string list" "string option" bool

type_synonym ('w, 'c, 'x) outcome = "(('c, 'x) raised + string) \<times> event list \<times> 'w"

text \<open>
  The working directory handed to the engine (line 213): the directory of the source
  file, or \<open>None\<close> when it has no parts.
\<close>

definition cwd_of :: "path \<Rightarrow> string option" where
  "cwd_of filepath' =
     (if parts (parent filepath') \<noteq> [] then Some (fspath (parent filepath')) else None)"

text \<open>
  The result path of the default-naming mode (lines 205 to 208):
  \<open>filepath.parent / f'{filepath.name}.{suffix}'\<close>, where \<open>suffix\<close> joins with dots
  those of \<open>(formatter, renderer, format)\<close> that are not \<open>None\<close>.
\<close>

definition default_result :: "call \<Rightarrow> string \<Rightarrow> path \<Rightarrow> path" where
  "default_result c format' filepath' =
     (let suffix_args = [formatter c, renderer c, Some format'];
          suffix' = join_sep ''.'' (List.map_filter id suffix_args)
      in joinpath (parent filepath') (name filepath' @ ''.'' @ suffix'))"

text \<open>
  The end of \<open>render\<close>, common to both modes (lines 210 to 218): the test for an
  existing result, the working directory, the engine run and the returned string.
  \<open>evs\<close> are the events so far.
\<close>

definition render_run ::
    "('w, 'c, 'x) system \<Rightarrow> call \<Rightarrow> string list \<Rightarrow> path \<Rightarrow> path \<Rightarrow> event list \<Rightarrow> 'w
      \<Rightarrow> ('w, 'c, 'x) outcome" where
  "render_run sys c cmd filepath' rendered evs w =
     (let evs1 = evs @ (if raise_if_result_exists c then [OsPathExists (fspath rendered)] else [])
      in if raise_if_result_exists c \<and> os_path_exists sys w (fspath rendered)
         then (Inl (Raised (OutputFileExists (fspath rendered))), evs1, w)
         else (let cwd = cwd_of filepath'
               in (case run_check sys cmd cwd (quiet c) w of
                     (Some e, w') \<Rightarrow> (Inl (RunCheckRaised e), evs1 @ [RunCheck cmd cwd (quiet c)], w')
                   | (None, w') \<Rightarrow> (Inr (fspath rendered), evs1 @ [RunCheck cmd cwd (quiet c)], w'))))"

text \<open>
  The source path in the branch \<open>outfile is not None\<close> (lines 176 and 177): the given
  \<open>filepath\<close>, or \<open>outfile.with_suffix(f'.{DEFAULT_SOURCE_EXTENSION}')\<close> when it is
  absent.
\<close>

definition source_path :: "('w, 'c, 'x) system \<Rightarrow> path \<Rightarrow> path option \<Rightarrow> error + path" where
  "source_path sys outfile' filepath0 =
     (case filepath0 of
        None \<Rightarrow> with_suffix outfile' (''.'' @ DEFAULT_SOURCE_EXTENSION sys)
      | Some p \<Rightarrow> Inr p)"

text \<open>
  The branch \<open>outfile is not None\<close> (lines 171 to 191). The conjunction of the same-file test is evaluated
  left to right, so the two paths are resolved only when the flag is off and the names
  agree. The command is a list of strings; the resolved output path goes into it as
  its string.
\<close>

definition render_outfile ::
    "('w, 'c, 'x) system \<Rightarrow> call \<Rightarrow> path \<Rightarrow> path option \<Rightarrow> 'w \<Rightarrow> ('w, 'c, 'x) outcome" where
  "render_outfile sys c outfile' filepath0 w =
     (case get_rendering_format (FORMATS sys) outfile' (format c) of
        (Inl e, ws) \<Rightarrow> (Inl (Raised e), map WarningsWarn ws, w)
      | (Inr format', ws) \<Rightarrow>
          (case command sys (engine c) format' (renderer c) (formatter c) of
             Inl e \<Rightarrow> (Inl (CommandRaised e), map WarningsWarn ws, w)
           | Inr cmd \<Rightarrow>
               (case source_path sys outfile' filepath0 of
                  Inl e \<Rightarrow> (Inl (Raised e), map WarningsWarn ws, w)
                | Inr filepath' \<Rightarrow>
                    (let same_name = (\<not> overwrite_filepath c \<and> name outfile' = name filepath');
                         evs1 = map WarningsWarn ws
                                @ (if same_name then [PathResolve outfile', PathResolve filepath']
                                   else [])
                     in if same_name
                           \<and> path_eq (resolve sys w outfile') (resolve sys w filepath')
                        then (Inl (Raised (SameFile (name outfile') (name filepath'))), evs1, w)
                        else (let differ = (\<not> path_eq (parent outfile') (parent filepath'));
                                  outfile_arg = (if differ then fspath (resolve sys w outfile')
                                                 else name outfile');
                                  evs2 = evs1 @ (if differ then [PathResolve outfile'] else [])
                              in render_run sys c (cmd @ [''-o'', outfile_arg, name filepath'])
                                   filepath' outfile' evs2 w)))))"

text \<open>
  The branch where \<open>outfile\<close> is absent and \<open>format\<close> and \<open>filepath\<close> are given
  (lines 199 to 208).
\<close>

definition render_default ::
    "('w, 'c, 'x) system \<Rightarrow> call \<Rightarrow> string \<Rightarrow> path \<Rightarrow> 'w \<Rightarrow> ('w, 'c, 'x) outcome" where
  "render_default sys c format' filepath' w =
     (case command sys (engine c) format' (renderer c) (formatter c) of
        Inl e \<Rightarrow> (Inl (CommandRaised e), [], w)
      | Inr cmd \<Rightarrow>
          (let rendered = default_result c format' filepath'
           in render_run sys c (cmd @ [''-O'', name filepath']) filepath' rendered [] w))"

text \<open>
  \<open>render\<close> itself: the check of the two flags comes first, then the promotion of the
  two paths, then the choice of the mode.
\<close>

definition render :: "('w, 'c, 'x) system \<Rightarrow> call \<Rightarrow> 'w \<Rightarrow> ('w, 'c, 'x) outcome" where
  "render sys c w =
     (if raise_if_result_exists c \<and> overwrite_filepath c
      then (Inl (Raised OverwriteWithRaiseIfExists), [], w)
      else (case promote_pathlike (outfile c) of
              Some outfile' \<Rightarrow> render_outfile sys c outfile' (promote_pathlike (filepath c)) w
            | None \<Rightarrow>
                (case format c of
                   None \<Rightarrow> (Inl (Raised FormatRequired), [], w)
                 | Some format' \<Rightarrow>
                     (case promote_pathlike (filepath c) of
                        None \<Rightarrow> (Inl (Raised FilepathRequired), [], w)
                      | Some filepath' \<Rightarrow> render_default sys c format' filepath' w))))"

text \<open>Whether an engine run is among the events.\<close>

fun is_run :: "event \<Rightarrow> bool" where
  "is_run (RunCheck cmd cwd q) = True"
| "is_run _ = False"

definition engine_invoked :: "event list \<Rightarrow> bool" where
  "engine_invoked evs = list_ex is_run evs"

section \<open>A small instance\<close>

text \<open>
  A concrete system on which the model can be run: four formats, the source extension
  \<open>gv\<close>, a file system that is the list of the existing files, and paths that resolve
  against the directory \<open>/work\<close>.
\<close>

definition demo_formats :: "string fset" where
  "demo_formats = {|''gv'', ''pdf'', ''png'', ''svg''|}"

text \<open>
  Modelled from the spec: \<open>dot_command.command\<close> is not part of the module. Of the
  command builder the spec fixes that a formatter without a renderer is an error and
  that the result encodes engine, format, renderer and formatter; the flags used here
  are placeholders.
\<close>

datatype command_error = FormatterWithoutRenderer

definition demo_command ::
    "string \<Rightarrow> string \<Rightarrow> string option \<Rightarrow> string option \<Rightarrow> command_error + string list" where
  "demo_command eng fmt rnd fmtr =
     (if fmtr \<noteq> None \<and> rnd = None then Inl FormatterWithoutRenderer
      else Inr [''dot'', ''-K'' @ eng,
                ''-T'' @ join_sep '':'' (List.map_filter id [Some fmt, rnd, fmtr])])"

definition demo_resolve :: "string list \<Rightarrow> path \<Rightarrow> path" where
  "demo_resolve w p = (if root p = [] then \<lparr>root = ''/'', tail = ''work'' # tail p\<rparr> else p)"

definition demo_exists :: "string list \<Rightarrow> string \<Rightarrow> bool" where
  "demo_exists w s = (s \<in> set w)"

text \<open>Two stub engines that always succeed: one writes nothing, one writes a given file.\<close>

definition idle_engine ::
    "string list \<Rightarrow> string option \<Rightarrow> bool \<Rightarrow> string list \<Rightarrow> unit option \<times> string list" where
  "idle_engine cmd cwd q w = (None, w)"

definition writing_engine ::
    "string \<Rightarrow> string list \<Rightarrow> string option \<Rightarrow> bool \<Rightarrow> string list \<Rightarrow> unit option \<times> string list" where
  "writing_engine file cmd cwd q w = (None, file # w)"

definition demo_system ::
    "(string list \<Rightarrow> string option \<Rightarrow> bool \<Rightarrow> string list \<Rightarrow> unit option \<times> string list)
      \<Rightarrow> (string list, command_error, unit) system" where
  "demo_system run =
     \<lparr>FORMATS = demo_formats, DEFAULT_SOURCE_EXTENSION = ''gv'', command = demo_command,
      resolve = demo_resolve, os_path_exists = demo_exists, run_check = run\<rparr>"

text \<open>The call \<open>render(eng)\<close> with every other argument at its default.\<close>

definition default_call :: "string \<Rightarrow> call" where
  "default_call eng =
     \<lparr>engine = eng, format = None, filepath = None, renderer = None, formatter = None,
      quiet = False, outfile = None, raise_if_result_exists = False,
      overwrite_filepath = False\<rparr>"

section \<open>Facts about strings and paths\<close>

lemmas path_eval =
  Path_def parse_path_def splitroot_def name_def suffix_def parent_def parts_def
  fspath_def format_parsed_parts_def path_eq_def Let_def

lemma lower_char_idem: "lower_char (lower_char c) = lower_char c"
  by (cases c) (simp add: Let_def)

lemma lower_idem: "lower (lower s) = lower s"
  by (simp add: lower_def lower_char_idem)

lemma rfind_found:
  "0 \<le> rfind c s \<Longrightarrow> nat (rfind c s) < length s \<and> s ! nat (rfind c s) = c"
proof (induction s)
  case Nil
  then show ?case by simp
next
  case (Cons x xs)
  show ?case
  proof (cases "0 \<le> rfind c xs")
    case True
    with Cons.IH have "nat (rfind c xs) < length xs" "xs ! nat (rfind c xs) = c" by simp_all
    moreover have "nat (rfind c xs + 1) = Suc (nat (rfind c xs))" using True by simp
    ultimately show ?thesis using True by (simp add: Let_def)
  next
    case False
    with Cons.prems show ?thesis by (simp add: Let_def split: if_splits)
  qed
qed

text \<open>A suffix that is not empty starts with a dot and is the end of the name.\<close>

lemma suffix_dot:
  assumes "suffix p \<noteq> []"
  shows "\<exists>S. suffix p = CHR ''.'' # S"
proof -
  let ?nm = "name p"
  let ?i = "rfind CHR ''.'' ?nm"
  from assms have i: "0 < ?i" "?i < int (length ?nm) - 1"
    and s: "suffix p = drop (nat ?i) ?nm"
    by (auto simp: suffix_def Let_def split: if_splits)
  from i have "nat ?i < length ?nm" "?nm ! nat ?i = CHR ''.''"
    using rfind_found [of "CHR ''.''" ?nm] by simp_all
  then have "drop (nat ?i) ?nm = CHR ''.'' # drop (Suc (nat ?i)) ?nm"
    by (metis Cons_nth_drop_Suc)
  with s show ?thesis by simp
qed

lemma partition_sep_head: "partition_sep c (c # S) = ([], [c], S)"
  by (simp add: partition_sep_def)

text \<open>The components of a parsed path hold no separator, and its root is one of three.\<close>

lemma split_sep_not_Nil: "split_sep c s \<noteq> []"
  by (induction s) (auto split: list.splits)

lemma split_sep_no_sep: "x \<in> set (split_sep c s) \<Longrightarrow> c \<notin> set x"
proof (induction s arbitrary: x)
  case Nil
  then show ?case by simp
next
  case (Cons a s)
  show ?case
  proof (cases "a = c")
    case True
    with Cons show ?thesis by auto
  next
    case False
    obtain y ys where ys: "split_sep c s = y # ys"
      using split_sep_not_Nil [of c s] by (cases "split_sep c s") auto
    with False Cons.prems have "x = a # y \<or> x \<in> set ys" by auto
    then show ?thesis
    proof
      assume "x = a # y"
      moreover have "c \<notin> set y" using Cons.IH [of y] ys by simp
      ultimately show ?thesis using False by auto
    next
      assume "x \<in> set ys"
      then show ?thesis using Cons.IH [of x] ys by simp
    qed
  qed
qed

lemma tail_Path:
  assumes "x \<in> set (tail (Path s))"
  shows "x \<noteq> [] \<and> x \<noteq> ''.'' \<and> CHR ''/'' \<notin> set x"
  using assms
  by (auto simp: Path_def parse_path_def splitroot_def Let_def split: if_splits prod.splits
        dest: split_sep_no_sep)

lemma root_Path: "root (Path s) = [] \<or> root (Path s) = ''/'' \<or> root (Path s) = ''//''"
proof (cases s)
  case Nil
  then show ?thesis by (simp add: Path_def parse_path_def)
next
  case (Cons a s')
  then show ?thesis
    by (cases s') (auto simp: Path_def parse_path_def splitroot_def)
qed

lemma root_Path_isabs: "(root (Path s) \<noteq> []) = isabs s"
  by (cases s) (auto simp: Path_def parse_path_def splitroot_def isabs_def startswith_def)

lemma name_Path_no_sep: "CHR ''/'' \<notin> set (name (Path s))"
proof (cases "tail (Path s) = []")
  case True
  then show ?thesis by (simp add: name_def)
next
  case False
  then have "last (tail (Path s)) \<in> set (tail (Path s))" by simp
  then have "CHR ''/'' \<notin> set (last (tail (Path s)))" using tail_Path by blast
  then show ?thesis using False by (simp add: name_def)
qed

lemma join_sep_startswith:
  assumes "xs \<noteq> []" and "hd xs \<noteq> []"
  shows "join_sep sep xs \<noteq> [] \<and> hd (join_sep sep xs) = hd (hd xs)"
proof (cases xs)
  case Nil
  with assms show ?thesis by simp
next
  case (Cons x ys)
  with assms show ?thesis by (cases ys) auto
qed

lemma isabs_fspath_Path: "isabs (fspath (Path s)) = isabs s"
proof (cases "root (Path s) = []")
  case True
  then have na: "\<not> isabs s" using root_Path_isabs [of s] by simp
  show ?thesis
  proof (cases "tail (Path s) = []")
    case True
    with \<open>root (Path s) = []\<close> na show ?thesis
      by (simp add: fspath_def format_parsed_parts_def isabs_def startswith_def)
  next
    case False
    then have "hd (tail (Path s)) \<in> set (tail (Path s))" by simp
    then have h: "hd (tail (Path s)) \<noteq> []" "CHR ''/'' \<notin> set (hd (tail (Path s)))"
      using tail_Path by blast+
    then have "hd (hd (tail (Path s))) \<noteq> CHR ''/''"
      by (cases "hd (tail (Path s))") auto
    moreover have "join_sep ''/'' (tail (Path s)) \<noteq> []
        \<and> hd (join_sep ''/'' (tail (Path s))) = hd (hd (tail (Path s)))"
      using False h(1) by (rule join_sep_startswith)
    ultimately show ?thesis using True na
      by (cases "join_sep ''/'' (tail (Path s))")
         (auto simp: fspath_def format_parsed_parts_def isabs_def startswith_def)
  qed
next
  case False
  then have "isabs s" using root_Path_isabs [of s] by simp
  moreover from False root_Path [of s] have "root (Path s) = ''/'' \<or> root (Path s) = ''//''"
    by simp
  ultimately show ?thesis
    by (auto simp: fspath_def format_parsed_parts_def isabs_def startswith_def)
qed

lemma suffix_props:
  assumes "suffix p \<noteq> []"
  shows "name p \<noteq> [] \<and> length (suffix p) \<le> length (name p) \<and> 2 \<le> length (suffix p)
         \<and> take (length (name p) - length (suffix p)) (name p) @ suffix p = name p
         \<and> set (suffix p) \<subseteq> set (name p)"
proof -
  let ?nm = "name p"
  let ?i = "rfind CHR ''.'' ?nm"
  from assms have i: "0 < ?i" "?i < int (length ?nm) - 1"
    and s: "suffix p = drop (nat ?i) ?nm"
    by (auto simp: suffix_def Let_def split: if_splits)
  from i have n: "nat ?i < length ?nm - 1" by linarith
  then have l: "length (suffix p) = length ?nm - nat ?i" using s by simp
  have "length ?nm - length (suffix p) = nat ?i" using l n by linarith
  then have "take (length ?nm - length (suffix p)) ?nm @ suffix p = ?nm"
    using s by simp
  moreover have "set (suffix p) \<subseteq> set ?nm" using s by (simp add: set_drop_subset)
  moreover have "?nm \<noteq> []" using n by auto
  moreover have "2 \<le> length (suffix p)" using l n by linarith
  ultimately show ?thesis using l by simp
qed

lemma with_suffix_same:
  assumes "suffix (Path s) \<noteq> []"
  shows "with_suffix (Path s) (suffix (Path s)) = Inr (Path s)"
proof -
  let ?p = "Path s"
  from assms obtain S where S: "suffix ?p = CHR ''.'' # S" using suffix_dot by blast
  note sp = suffix_props [OF assms]
  have nosep: "CHR ''/'' \<notin> set (suffix ?p)"
    using sp name_Path_no_sep [of s] by blast
  have notdot: "suffix ?p \<noteq> ''.''" using sp by auto
  have sw: "startswith (suffix ?p) CHR ''.''" using S by (simp add: startswith_def)
  have nm: "name ?p \<noteq> []" using sp by simp
  then have tl: "tail ?p \<noteq> []" by (auto simp: name_def)
  have "butlast (tail ?p) @ [name ?p] = tail ?p"
    using tl by (simp add: name_def)
  then have "\<lparr>root = root ?p, tail = butlast (tail ?p) @ [name ?p]\<rparr> = ?p" by simp
  then show ?thesis
    using nosep notdot sw nm assms sp by (simp add: with_suffix_def Let_def)
qed

lemma wf_path_Path: "wf_path (Path s)"
  using root_Path [of s] tail_Path [of _ s] by (auto simp: wf_path_def list_all_iff)

lemma wf_path_parent: "wf_path p \<Longrightarrow> wf_path (parent p)"
  by (auto simp: wf_path_def parent_def list_all_iff dest: in_set_butlastD)

lemma split_sep_none: "c \<notin> set x \<Longrightarrow> split_sep c x = [x]"
  by (induction x) auto

lemma split_sep_append: "c \<notin> set x \<Longrightarrow> split_sep c (x @ c # rest) = x # split_sep c rest"
  by (induction x) auto

lemma split_sep_join_sep:
  "xs \<noteq> [] \<Longrightarrow> list_all (\<lambda>x. c \<notin> set x) xs \<Longrightarrow> split_sep c (join_sep [c] xs) = xs"
proof (induction "[c]" xs rule: join_sep.induct)
  case 1
  then show ?case by simp
next
  case (2 x)
  then show ?case by (simp add: split_sep_none)
next
  case (3 x y ys)
  then show ?case by (simp add: split_sep_append)
qed

lemma join_sep_snoc:
  "xs \<noteq> [] \<Longrightarrow> join_sep sep (xs @ [k]) = join_sep sep xs @ sep @ k"
  by (induction sep xs rule: join_sep.induct) auto

lemma join_sep_Nil_iff:
  "list_all (\<lambda>x. x \<noteq> []) xs \<Longrightarrow> (join_sep sep xs = []) = (xs = [])"
  by (induction sep xs rule: join_sep.induct) auto

lemma join_sep_hd:
  "xs \<noteq> [] \<Longrightarrow> hd xs \<noteq> [] \<Longrightarrow> hd (join_sep sep xs) = hd (hd xs)"
  using join_sep_startswith by blast

lemma join_sep_last:
  "xs \<noteq> [] \<Longrightarrow> last xs \<noteq> [] \<Longrightarrow>
     join_sep sep xs \<noteq> [] \<and> last (join_sep sep xs) = last (last xs)"
  by (induction sep xs rule: join_sep.induct) auto

lemma endswith_iff: "endswith s c = (s \<noteq> [] \<and> last s = c)"
  by (cases s rule: rev_cases) (simp_all add: endswith_def)

text \<open>Parsing the string form of a well-formed path gives the path back.\<close>

lemma Path_format_parsed_parts:
  assumes "wf_path p"
  shows "Path (format_parsed_parts p) = p"
proof -
  let ?j = "join_sep ''/'' (tail p)"
  have comps: "list_all (\<lambda>x. x \<noteq> [] \<and> x \<noteq> ''.'' \<and> CHR ''/'' \<notin> set x) (tail p)"
    using assms by (simp add: wf_path_def)
  then have ne: "list_all (\<lambda>x. x \<noteq> []) (tail p)" and ns: "list_all (\<lambda>x. CHR ''/'' \<notin> set x) (tail p)"
    by (auto simp: list_all_iff)
  have keep: "filter (\<lambda>x. x \<noteq> [] \<and> x \<noteq> ''.'') (tail p) = tail p"
    using comps by (auto simp: list_all_iff filter_id_conv)
  have sp: "filter (\<lambda>x. x \<noteq> [] \<and> x \<noteq> ''.'') (split_sep CHR ''/'' ?j) = tail p"
  proof (cases "tail p = []")
    case True
    then show ?thesis by simp
  next
    case False
    with ns have "split_sep CHR ''/'' ?j = tail p" by (simp add: split_sep_join_sep)
    with keep show ?thesis by simp
  qed
  have hd: "?j \<noteq> [] \<Longrightarrow> hd ?j \<noteq> CHR ''/''"
  proof -
    assume j: "?j \<noteq> []"
    then have t: "tail p \<noteq> []" by auto
    then have "hd (tail p) \<in> set (tail p)" by simp
    with comps have h: "hd (tail p) \<noteq> []" "CHR ''/'' \<notin> set (hd (tail p))"
      by (auto simp: list_all_iff)
    then have "hd (hd (tail p)) \<noteq> CHR ''/''" by (cases "hd (tail p)") auto
    with join_sep_hd [OF t h(1)] show ?thesis by simp
  qed
  from assms consider "root p = []" | "root p = ''/''" | "root p = ''//''"
    by (auto simp: wf_path_def)
  then show ?thesis
  proof cases
    case 1
    show ?thesis
    proof (cases "?j = []")
      case True
      with ne have "tail p = []" by (simp add: join_sep_Nil_iff)
      with 1 True show ?thesis by (simp add: format_parsed_parts_def Path_def parse_path_def)
    next
      case False
      with hd have "take 1 ?j \<noteq> ''/''" by (cases ?j) auto
      with 1 False sp show ?thesis
        by (simp add: format_parsed_parts_def Path_def parse_path_def splitroot_def)
    qed
  next
    case 2
    have "take 1 ?j \<noteq> ''/''" using hd by (cases ?j) auto
    with 2 sp show ?thesis
      by (simp add: format_parsed_parts_def Path_def parse_path_def splitroot_def)
  next
    case 3
    have "take 1 ?j \<noteq> ''/''" using hd by (cases ?j) auto
    with 3 sp show ?thesis
      by (simp add: format_parsed_parts_def Path_def parse_path_def splitroot_def)
  qed
qed

lemma Path_fspath:
  assumes "wf_path p"
  shows "Path (fspath p) = p"
proof (cases "format_parsed_parts p = []")
  case True
  then have "root p = []" "join_sep ''/'' (tail p) = []"
    by (auto simp: format_parsed_parts_def split: if_splits)
  moreover have "list_all (\<lambda>x. x \<noteq> []) (tail p)"
    using assms by (auto simp: wf_path_def list_all_iff)
  ultimately have "tail p = []" by (simp add: join_sep_Nil_iff)
  with \<open>root p = []\<close> True show ?thesis
    by (simp add: fspath_def Path_def parse_path_def splitroot_def)
next
  case False
  with Path_format_parsed_parts [OF assms] show ?thesis by (simp add: fspath_def)
qed

text \<open>Joining a single clean component onto a well-formed path appends it to the tail.\<close>

lemma joinpath_component:
  assumes "wf_path q" and "key \<noteq> []" and "key \<noteq> ''.''" and "CHR ''/'' \<notin> set key"
  shows "joinpath q key = \<lparr>root = root q, tail = tail q @ [key]\<rparr>"
proof -
  let ?q' = "\<lparr>root = root q, tail = tail q @ [key]\<rparr>"
  have wf': "wf_path ?q'" using assms by (simp add: wf_path_def)
  have ne: "list_all (\<lambda>x. x \<noteq> []) (tail q)"
    using assms(1) by (auto simp: wf_path_def list_all_iff)
  have sw: "\<not> startswith key CHR ''/''" using assms(2,4) by (cases key) (auto simp: startswith_def)
  have "posix_join (format_parsed_parts q) key = format_parsed_parts ?q'"
  proof (cases "tail q = []")
    case True
    from assms(1) consider "root q = []" | "root q = ''/''" | "root q = ''//''"
      by (auto simp: wf_path_def)
    then show ?thesis
      using True sw by cases (simp_all add: posix_join_def format_parsed_parts_def endswith_def)
  next
    case False
    let ?j = "join_sep ''/'' (tail q)"
    from False ne have jne: "?j \<noteq> []" by (simp add: join_sep_Nil_iff)
    from False have "last (tail q) \<in> set (tail q)" by simp
    with assms(1) have l: "last (tail q) \<noteq> []" "CHR ''/'' \<notin> set (last (tail q))"
      by (auto simp: wf_path_def list_all_iff)
    then have "last (last (tail q)) \<noteq> CHR ''/''"
      using last_in_set by fastforce
    with join_sep_last [OF False l(1)] have "last ?j \<noteq> CHR ''/''" by simp
    with jne have ew: "\<not> endswith (root q @ ?j) CHR ''/''" "\<not> endswith ?j CHR ''/''"
      by (simp_all add: endswith_iff)
    show ?thesis
      using False sw jne ew
      by (simp add: posix_join_def format_parsed_parts_def join_sep_snoc)
  qed
  with Path_format_parsed_parts [OF wf'] show ?thesis by (simp add: joinpath_def)
qed

section \<open>Facts about format resolution\<close>

text \<open>
  The assertion of \<open>infer_rendering_format\<close> never fails, so the function is decided
  by the suffix alone.
\<close>

lemma infer_rendering_format_eq:
  "infer_rendering_format F out =
     (if suffix out = [] then Inl (MissingSuffix (fspath out))
      else if lower (tl (suffix out)) |\<in>| F then Inr (lower (tl (suffix out)))
      else Inl (UnknownFormat (suffix out) (fspath out) (lower (tl (suffix out)))
             (get_supported_suffixes F)))"
proof (cases "suffix out = []")
  case True
  then show ?thesis by (simp add: infer_rendering_format_def)
next
  case False
  then obtain S where S: "suffix out = CHR ''.'' # S" using suffix_dot by blast
  then show ?thesis
    by (simp add: infer_rendering_format_def partition_sep_head verify_format_def Let_def)
qed

lemma get_supported_suffixes_set:
  "set (get_supported_suffixes F) = (\<lambda>f. ''.'' @ f) ` fset F"
  by (simp add: get_supported_suffixes_def get_supported_formats_def)

lemma suffix_spam_pdf: "suffix (Path ''spam.pdf'') = ''.pdf''"
  by (simp add: path_eval)

lemma suffix_spam_mp3: "suffix (Path ''spam.mp3'') = ''.mp3''"
  by (simp add: path_eval)

lemma suffix_spam_PNG: "suffix (Path ''spam.PNG'') = ''.PNG''"
  by (simp add: path_eval)

section \<open>Facts about rendering\<close>

lemmas demo_eval =
  demo_system_def demo_command_def demo_resolve_def demo_exists_def idle_engine_def
  writing_engine_def default_call_def demo_formats_def List.map_filter_def

text \<open>The end of \<open>render\<close>, written out by cases.\<close>

lemma render_run_eq:
  "render_run sys c cmd src rendered evs w =
     (if raise_if_result_exists c \<and> os_path_exists sys w (fspath rendered)
      then (Inl (Raised (OutputFileExists (fspath rendered))),
            evs @ [OsPathExists (fspath rendered)], w)
      else ((case fst (run_check sys cmd (cwd_of src) (quiet c) w) of
               Some e \<Rightarrow> Inl (RunCheckRaised e)
             | None \<Rightarrow> Inr (fspath rendered)),
            evs @ (if raise_if_result_exists c then [OsPathExists (fspath rendered)] else [])
              @ [RunCheck cmd (cwd_of src) (quiet c)],
            snd (run_check sys cmd (cwd_of src) (quiet c) w)))"
  by (simp add: render_run_def Let_def split: prod.splits option.splits)

lemma render_run_Inr:
  "fst (render_run sys c cmd src rendered evs w) = Inr r \<Longrightarrow> r = fspath rendered"
  by (auto simp: render_run_eq split: if_splits option.splits)

lemma render_run_RunCheck:
  assumes "RunCheck cmd' cwd q \<in> set (fst (snd (render_run sys c cmd src rendered evs w)))"
    and "RunCheck cmd' cwd q \<notin> set evs"
  shows "cmd' = cmd \<and> cwd = cwd_of src \<and> q = quiet c"
  using assms by (auto simp: render_run_eq split: if_splits)

lemma render_outfile_Inr:
  "fst (render_outfile sys c out fp w) = Inr r \<Longrightarrow> r = fspath out"
  by (auto simp: render_outfile_def Let_def split: prod.splits sum.splits if_splits
        dest: render_run_Inr)

lemma render_default_Inr:
  "fst (render_default sys c fmt src w) = Inr r \<Longrightarrow> r = fspath (default_result c fmt src)"
  by (auto simp: render_default_def Let_def split: sum.splits dest: render_run_Inr)

lemma default_result_spam: 
  "renderer c = None \<Longrightarrow> formatter c = None \<Longrightarrow>
   fspath (default_result c ''png'' (Path ''spam.gv'')) = ''spam.gv.png''"
  by (simp add: default_result_def List.map_filter_def joinpath_def posix_join_def
        startswith_def endswith_def path_eval)

text \<open>The explicit-output branch once format, command and source path are there.\<close>

lemma render_outfile_reached:
  assumes "get_rendering_format (FORMATS sys) out (format c) = (Inr fmt, ws)"
    and "command sys (engine c) fmt (renderer c) (formatter c) = Inr prefix"
    and "source_path sys out fp = Inr src"
  shows "render_outfile sys c out fp w =
     (if (\<not> overwrite_filepath c \<and> name out = name src)
          \<and> path_eq (resolve sys w out) (resolve sys w src)
      then (Inl (Raised (SameFile (name out) (name src))),
            map WarningsWarn ws
              @ (if \<not> overwrite_filepath c \<and> name out = name src
                 then [PathResolve out, PathResolve src] else []), w)
      else render_run sys c
             (prefix @ [''-o'',
                        (if \<not> path_eq (parent out) (parent src) then fspath (resolve sys w out)
                         else name out),
                        name src])
             src out
             ((map WarningsWarn ws
                @ (if \<not> overwrite_filepath c \<and> name out = name src
                   then [PathResolve out, PathResolve src] else []))
              @ (if \<not> path_eq (parent out) (parent src) then [PathResolve out] else []))
             w)"
  by (simp only: render_outfile_def Let_def assms sum.case prod.case)

lemma render_outfile_RunCheck:
  assumes "RunCheck cmd cwd q \<in> set (fst (snd (render_outfile sys c out fp w)))"
  shows "\<exists>fmt ws prefix src.
           get_rendering_format (FORMATS sys) out (format c) = (Inr fmt, ws)
         \<and> command sys (engine c) fmt (renderer c) (formatter c) = Inr prefix
         \<and> source_path sys out fp = Inr src
         \<and> cmd = prefix @ [''-o'',
                            (if path_eq (parent out) (parent src) then name out
                             else fspath (resolve sys w out)),
                            name src]
         \<and> cwd = cwd_of src \<and> q = quiet c"
proof -
  obtain res ws where g: "get_rendering_format (FORMATS sys) out (format c) = (res, ws)"
    by (cases "get_rendering_format (FORMATS sys) out (format c)")
  show ?thesis
  proof (cases res)
    case (Inl e)
    with g assms show ?thesis by (auto simp: render_outfile_def)
  next
    case (Inr fmt)
    show ?thesis
    proof (cases "command sys (engine c) fmt (renderer c) (formatter c)")
      case (Inl e)
      with g Inr assms show ?thesis by (auto simp: render_outfile_def)
    next
      case cmdr: (Inr prefix)
      show ?thesis
      proof (cases "source_path sys out fp")
        case (Inl e)
        with g Inr cmdr assms show ?thesis by (auto simp: render_outfile_def)
      next
        case src: (Inr src)
        note r = render_outfile_reached [OF g [unfolded Inr] cmdr src, of w]
        let ?evs2 = "(map WarningsWarn ws
                @ (if \<not> overwrite_filepath c \<and> name out = name src
                   then [PathResolve out, PathResolve src] else []))
              @ (if \<not> path_eq (parent out) (parent src) then [PathResolve out] else [])"
        let ?arg = "if \<not> path_eq (parent out) (parent src) then fspath (resolve sys w out)
                    else name out"
        have no: "RunCheck cmd cwd q \<notin> set ?evs2" by auto
        show ?thesis
        proof (cases "(\<not> overwrite_filepath c \<and> name out = name src)
                        \<and> path_eq (resolve sys w out) (resolve sys w src)")
          case True
          have "render_outfile sys c out fp w
              = (Inl (Raised (SameFile (name out) (name src))),
                 map WarningsWarn ws
                   @ (if \<not> overwrite_filepath c \<and> name out = name src
                      then [PathResolve out, PathResolve src] else []), w)"
            by (simp only: r if_P [OF True])
          with assms show ?thesis by auto
        next
          case False
          have "render_outfile sys c out fp w
              = render_run sys c (prefix @ [''-o'', ?arg, name src]) src out ?evs2 w"
            by (simp only: r if_not_P [OF False])
          with assms
          have "RunCheck cmd cwd q \<in> set (fst (snd (render_run sys c
                   (prefix @ [''-o'', ?arg, name src]) src out ?evs2 w)))"
            by simp
          from render_run_RunCheck [OF this no]
          have "cmd = prefix @ [''-o'', ?arg, name src] \<and> cwd = cwd_of src \<and> q = quiet c" .
          with g Inr cmdr src show ?thesis by auto
        qed
      qed
    qed
  qed
qed

text \<open>What the branches of \<open>render\<close> can raise, and what a successful call went through.\<close>

lemma get_rendering_format_Inl:
  "get_rendering_format F out fmt = (Inl e, ws) \<Longrightarrow>
     e = CannotInferFormat (suffix out) (fspath out) (get_supported_suffixes F) \<and> ws = []"
  by (auto simp: get_rendering_format_def infer_rendering_format_eq
        split: if_splits option.splits)

lemma source_path_Inl:
  "source_path sys out fp = Inl e \<Longrightarrow> (\<exists>s. e = InvalidSuffix s) \<or> (\<exists>s. e = EmptyName s)"
  by (auto simp: source_path_def with_suffix_def Let_def split: option.splits if_splits)

lemma render_run_not_SameFile:
  "fst (render_run sys c cmd src rendered evs w) \<noteq> Inl (Raised (SameFile a b))"
  by (auto simp: render_run_eq split: option.splits)

lemma render_outfile_overwrite:
  assumes "overwrite_filepath c"
  shows "fst (render_outfile sys c out fp w) \<noteq> Inl (Raised (SameFile a b))"
proof -
  obtain res ws where g: "get_rendering_format (FORMATS sys) out (format c) = (res, ws)"
    by (cases "get_rendering_format (FORMATS sys) out (format c)")
  show ?thesis
  proof (cases res)
    case (Inl e)
    with g get_rendering_format_Inl [of "FORMATS sys" out "format c" e ws] show ?thesis
      by (auto simp: render_outfile_def)
  next
    case (Inr fmt)
    show ?thesis
    proof (cases "command sys (engine c) fmt (renderer c) (formatter c)")
      case (Inl e)
      with g Inr show ?thesis by (auto simp: render_outfile_def)
    next
      case cmdr: (Inr prefix)
      show ?thesis
      proof (cases "source_path sys out fp")
        case (Inl e)
        with g Inr cmdr source_path_Inl [of sys out fp e] show ?thesis
          by (auto simp: render_outfile_def)
      next
        case src: (Inr src)
        show ?thesis
          unfolding render_outfile_reached [OF g [unfolded Inr] cmdr src]
          using assms by (simp add: render_run_not_SameFile)
      qed
    qed
  qed
qed

lemma render_overwrite:
  assumes "overwrite_filepath c"
  shows "fst (render sys c w) \<noteq> Inl (Raised (SameFile a b))"
  using assms
  by (auto simp: render_def render_default_def Let_def render_run_not_SameFile
        render_outfile_overwrite split: option.splits sum.splits)

lemma render_Some_outfile:
  assumes "outfile c = Some Out" and "\<not> (raise_if_result_exists c \<and> overwrite_filepath c)"
  shows "render sys c w = render_outfile sys c (Path Out) (promote_pathlike (filepath c)) w"
  using assms by (auto simp: render_def promote_pathlike_def)

lemma engine_invoked_append [simp]:
  "engine_invoked (xs @ ys) = (engine_invoked xs \<or> engine_invoked ys)"
  by (simp add: engine_invoked_def)

lemma engine_invoked_warnings [simp]: "\<not> engine_invoked (map WarningsWarn ws)"
  by (induction ws) (simp_all add: engine_invoked_def)

lemma engine_invoked_simps [simp]:
  "\<not> engine_invoked []"
  "engine_invoked (e # es) = (is_run e \<or> engine_invoked es)"
  by (simp_all add: engine_invoked_def)

lemma source_path_same:
  assumes "suffix (Path s) = ''.'' @ DEFAULT_SOURCE_EXTENSION sys"
  shows "source_path sys (Path s) None = Inr (Path s)"
proof -
  from assms have "suffix (Path s) \<noteq> []" by simp
  from with_suffix_same [OF this] assms show ?thesis by (simp add: source_path_def)
qed

lemma render_None_outfile:
  assumes "outfile c = None" and "format c = Some F" and "filepath c = Some P"
    and "\<not> (raise_if_result_exists c \<and> overwrite_filepath c)"
  shows "render sys c w = render_default sys c F (Path P) w"
  using assms by (auto simp: render_def promote_pathlike_def)

lemma render_default_reached:
  assumes "command sys (engine c) F (renderer c) (formatter c) = Inr prefix"
  shows "render_default sys c F src w
     = render_run sys c (prefix @ [''-O'', name src]) src (default_result c F src) [] w"
  using assms by (simp add: render_default_def)

lemma render_outfile_Inr_cases:
  assumes "fst (render_outfile sys c out fp w) = Inr r"
  shows "\<exists>fmt ws prefix src.
           get_rendering_format (FORMATS sys) out (format c) = (Inr fmt, ws)
         \<and> command sys (engine c) fmt (renderer c) (formatter c) = Inr prefix
         \<and> source_path sys out fp = Inr src
         \<and> \<not> ((\<not> overwrite_filepath c \<and> name out = name src)
                \<and> path_eq (resolve sys w out) (resolve sys w src))
         \<and> r = fspath out"
proof -
  obtain res ws where g: "get_rendering_format (FORMATS sys) out (format c) = (res, ws)"
    by (cases "get_rendering_format (FORMATS sys) out (format c)")
  show ?thesis
  proof (cases res)
    case (Inl e)
    with g assms show ?thesis by (auto simp: render_outfile_def)
  next
    case (Inr fmt)
    show ?thesis
    proof (cases "command sys (engine c) fmt (renderer c) (formatter c)")
      case (Inl e)
      with g Inr assms show ?thesis by (auto simp: render_outfile_def)
    next
      case cmdr: (Inr prefix)
      show ?thesis
      proof (cases "source_path sys out fp")
        case (Inl e)
        with g Inr cmdr assms show ?thesis by (auto simp: render_outfile_def)
      next
        case src: (Inr src)
        note rr = render_outfile_reached [OF g [unfolded Inr] cmdr src, of w]
        have "\<not> ((\<not> overwrite_filepath c \<and> name out = name src)
                \<and> path_eq (resolve sys w out) (resolve sys w src))"
        proof
          assume t: "(\<not> overwrite_filepath c \<and> name out = name src)
                \<and> path_eq (resolve sys w out) (resolve sys w src)"
          have "fst (render_outfile sys c out fp w)
              = Inl (Raised (SameFile (name out) (name src)))"
            by (simp only: rr if_P [OF t] fst_conv)
          with assms show False by simp
        qed
        moreover have "r = fspath out" using assms by (rule render_outfile_Inr)
        ultimately show ?thesis using g Inr cmdr src by blast
      qed
    qed
  qed
qed

lemma render_default_Inr_cases:
  assumes "fst (render_default sys c F src w) = Inr r"
  shows "\<exists>prefix. command sys (engine c) F (renderer c) (formatter c) = Inr prefix"
  using assms by (auto simp: render_default_def split: sum.splits)

lemma render_outfile_exists:
  assumes "get_rendering_format (FORMATS sys) out (format c) = (Inr fmt, ws)"
    and "command sys (engine c) fmt (renderer c) (formatter c) = Inr prefix"
    and "source_path sys out fp = Inr src"
    and "\<not> ((\<not> overwrite_filepath c \<and> name out = name src)
            \<and> path_eq (resolve sys w out) (resolve sys w src))"
    and "raise_if_result_exists c" and "os_path_exists sys w (fspath out)"
  shows "fst (render_outfile sys c out fp w) = Inl (Raised (OutputFileExists (fspath out)))
       \<and> \<not> engine_invoked (fst (snd (render_outfile sys c out fp w)))
       \<and> snd (snd (render_outfile sys c out fp w)) = w"
proof -
  note rr = render_outfile_reached [OF assms(1,2,3), of w]
  show ?thesis
    unfolding rr if_not_P [OF assms(4)]
    using assms(5,6) by (simp add: render_run_eq)
qed

lemma render_default_exists:
  assumes "command sys (engine c) F (renderer c) (formatter c) = Inr prefix"
    and "raise_if_result_exists c"
    and "os_path_exists sys w (fspath (default_result c F src))"
  shows "fst (render_default sys c F src w)
           = Inl (Raised (OutputFileExists (fspath (default_result c F src))))
       \<and> \<not> engine_invoked (fst (snd (render_default sys c F src w)))
       \<and> snd (snd (render_default sys c F src w)) = w"
  using assms by (simp add: render_default_reached render_run_eq)

section \<open>Properties of format resolution\<close>

text \<open>
  Claim C1. When the suffix of the output path is \<open>.S\<close> and \<open>S\<close>, lower-cased, is a
  supported format, that format is the inferred one; if an explicit format \<open>Y\<close> is
  given whose lower-cased value differs from it, \<open>get_rendering_format\<close> emits the
  format/suffix mismatch warning (and no other) and returns \<open>Y\<close>, not the inferred
  format.
\<close>

theorem explicit_format_wins_on_mismatch:
  assumes "suffix out = CHR ''.'' # S" and "lower S |\<in>| F" and "lower Y \<noteq> lower S"
  shows "infer_rendering_format F out = Inr (lower S)
         \<and> get_rendering_format F out (Some Y)
             = (Inr Y, [FormatSuffixMismatchWarning (lower S) Y])"
  using assms by (simp add: get_rendering_format_def infer_rendering_format_eq)

theorem explicit_format_wins_on_mismatch_witness:
  "infer_rendering_format demo_formats (Path ''spam.pdf'') = Inr ''pdf''
   \<and> get_rendering_format demo_formats (Path ''spam.pdf'') (Some ''png'')
       = (Inr ''png'', [FormatSuffixMismatchWarning ''pdf'' ''png''])"
  using explicit_format_wins_on_mismatch
          [of "Path ''spam.pdf''" "''pdf''" demo_formats "''png''"]
  by (simp add: suffix_spam_pdf lower_def demo_formats_def)

text \<open>
  Claim C3. When the suffix of the output path is empty, or its lower-cased text after
  the dot is not a supported format: without an explicit format,
  \<open>get_rendering_format\<close> raises the required-argument error, which carries the list
  of supported suffixes (every supported format with a dot in front, and nothing
  else); with an explicit format \<open>Y\<close> it emits the unknown-suffix warning and returns
  \<open>Y\<close>.
\<close>

theorem unknown_suffix_fallback:
  assumes "suffix out = [] \<or> lower (tl (suffix out)) |\<notin>| F"
  shows "get_rendering_format F out None
           = (Inl (CannotInferFormat (suffix out) (fspath out) (get_supported_suffixes F)), [])
         \<and> set (get_supported_suffixes F) = (\<lambda>f. ''.'' @ f) ` fset F
         \<and> get_rendering_format F out (Some Y)
           = (Inr Y, [UnknownSuffixWarning (suffix out) (''.'' @ Y)])"
  using assms
  by (auto simp: get_rendering_format_def infer_rendering_format_eq get_supported_suffixes_set)

theorem unknown_suffix_fallback_witness:
  "get_rendering_format demo_formats (Path ''spam.mp3'') None
     = (Inl (CannotInferFormat ''.mp3'' (fspath (Path ''spam.mp3''))
               (get_supported_suffixes demo_formats)), [])
   \<and> get_rendering_format demo_formats (Path ''spam.mp3'') (Some ''png'')
     = (Inr ''png'', [UnknownSuffixWarning ''.mp3'' ''.png''])"
  using unknown_suffix_fallback [of "Path ''spam.mp3''" demo_formats "''png''"]
  by (simp add: suffix_spam_mp3 lower_def demo_formats_def)

text \<open>
  Claim C7, as stated, fails: with the output path \<open>spam.pdf\<close> and the explicit format
  \<open>PNG\<close> the value returned is \<open>PNG\<close>, which is not lower-cased.
\<close>

theorem returned_format_case_counterexample:
  "fst (get_rendering_format demo_formats (Path ''spam.pdf'') (Some ''PNG'')) = Inr ''PNG''
   \<and> lower ''PNG'' \<noteq> ''PNG''"
  by (simp add: get_rendering_format_def infer_rendering_format_eq suffix_spam_pdf lower_def
        demo_formats_def)

text \<open>
  Claim C7, amended. The comparison is case-insensitive and the inferred format is
  lower-cased: a format returned without a warning is lower-cased; a format returned
  with a warning (mismatch or unknown suffix) is the explicit format exactly as given;
  with a supported suffix \<open>.S\<close> no warning is emitted exactly when the explicit format
  and \<open>S\<close> agree after lower-casing, and then the lower-cased \<open>S\<close> is returned; and
  \<open>spam.PNG\<close> resolves to \<open>png\<close> when \<open>png\<close> is supported.
\<close>

theorem format_case_normalisation:
  "(\<forall>r ws. get_rendering_format F out fmt = (Inr r, ws)
       \<longrightarrow> (ws = [] \<longrightarrow> lower r = r) \<and> (ws \<noteq> [] \<longrightarrow> fmt = Some r))
   \<and> (\<forall>S Y. suffix out = CHR ''.'' # S \<and> lower S |\<in>| F
       \<longrightarrow> ((snd (get_rendering_format F out (Some Y)) = []) = (lower Y = lower S))
           \<and> (lower Y = lower S \<longrightarrow> fst (get_rendering_format F out (Some Y)) = Inr (lower S)))
   \<and> (''png'' |\<in>| F \<longrightarrow> get_rendering_format F (Path ''spam.PNG'') None = (Inr ''png'', []))"
proof (intro conjI allI impI)
  fix r ws
  assume "get_rendering_format F out fmt = (Inr r, ws)" and "ws = []"
  then show "lower r = r"
    by (auto simp: get_rendering_format_def infer_rendering_format_eq lower_idem
          split: option.splits if_splits)
next
  fix r ws
  assume "get_rendering_format F out fmt = (Inr r, ws)" and "ws \<noteq> []"
  then show "fmt = Some r"
    by (auto simp: get_rendering_format_def infer_rendering_format_eq
          split: option.splits if_splits)
next
  fix S Y
  assume "suffix out = CHR ''.'' # S \<and> lower S |\<in>| F"
  then show "(snd (get_rendering_format F out (Some Y)) = []) = (lower Y = lower S)"
    by (simp add: get_rendering_format_def infer_rendering_format_eq)
next
  fix S Y
  assume "suffix out = CHR ''.'' # S \<and> lower S |\<in>| F" and "lower Y = lower S"
  then show "fst (get_rendering_format F out (Some Y)) = Inr (lower S)"
    by (simp add: get_rendering_format_def infer_rendering_format_eq)
next
  assume "''png'' |\<in>| F"
  then show "get_rendering_format F (Path ''spam.PNG'') None = (Inr ''png'', [])"
    by (simp add: get_rendering_format_def infer_rendering_format_eq suffix_spam_PNG lower_def)
qed

theorem format_case_normalisation_witness:
  "get_rendering_format demo_formats (Path ''spam.PNG'') (Some ''Png'') = (Inr ''png'', [])
   \<and> lower ''png'' = ''png''
   \<and> get_rendering_format demo_formats (Path ''spam.PNG'') None = (Inr ''png'', [])"
proof -
  have s: "suffix (Path ''spam.PNG'') = CHR ''.'' # ''PNG'' \<and> lower ''PNG'' |\<in>| demo_formats"
    by (simp add: suffix_spam_PNG lower_def demo_formats_def)
  have l: "lower ''Png'' = lower ''PNG''" by (simp add: lower_def)
  have p: "''png'' |\<in>| demo_formats" by (simp add: demo_formats_def)
  note t = format_case_normalisation [of demo_formats "Path ''spam.PNG''" "Some ''Png''"]
  from t s l have a: "snd (get_rendering_format demo_formats (Path ''spam.PNG'') (Some ''Png'')) = []"
    by blast
  from t s l have b: "fst (get_rendering_format demo_formats (Path ''spam.PNG'') (Some ''Png''))
       = Inr (lower ''PNG'')"
    by blast
  from a b have c: "get_rendering_format demo_formats (Path ''spam.PNG'') (Some ''Png'') = (Inr ''png'', [])"
    by (simp add: prod_eq_iff lower_def)
  from t c have d: "lower ''png'' = ''png''" by blast
  from t p have e: "get_rendering_format demo_formats (Path ''spam.PNG'') None = (Inr ''png'', [])"
    by blast
  from c d e show ?thesis by simp
qed

section \<open>Properties of rendering\<close>

text \<open>
  Claim C5. When \<open>raise_if_result_exists\<close> and \<open>overwrite_filepath\<close> are both set,
  \<open>render\<close> raises the mutual-exclusion error whatever the other arguments, the system
  and the state are; no event has happened by then (no warning, no path resolved, no
  existence test, no engine run) and the state is untouched.
\<close>

theorem mutual_exclusion_first:
  assumes "raise_if_result_exists c" and "overwrite_filepath c"
  shows "render sys c w = (Inl (Raised OverwriteWithRaiseIfExists), [], w)"
  using assms by (simp add: render_def)

theorem mutual_exclusion_first_witness:
  "render (demo_system idle_engine)
     ((default_call ''dot'')\<lparr>outfile := Some ''spam.pdf'', raise_if_result_exists := True,
        overwrite_filepath := True\<rparr>) [''spam.pdf'']
   = (Inl (Raised OverwriteWithRaiseIfExists), [], [''spam.pdf''])"
  using mutual_exclusion_first
     [of "(default_call ''dot'')\<lparr>outfile := Some ''spam.pdf'', raise_if_result_exists := True,
        overwrite_filepath := True\<rparr>" "demo_system idle_engine" "[''spam.pdf'']"]
  by simp

text \<open>
  Claim C2. With \<open>outfile\<close> absent and a format \<open>F\<close> and a filepath \<open>P\<close> given: whatever
  \<open>render\<close> returns is the string of \<open>P\<close>'s directory joined with \<open>P\<close>'s name, a dot,
  and the dot-joined values that are not \<open>None\<close> among formatter, renderer, \<open>F\<close> in
  this order. When that last component holds no separator and is not a lone dot, the
  string is the directory, a separator and the component (the root and the component
  when the directory has no components of its own). The call does return when the
  flags are not both set, the command builder and the engine succeed and the result is
  not found existing under \<open>raise_if_result_exists\<close>. For format \<open>png\<close>, filepath
  \<open>spam.gv\<close> and neither renderer nor formatter the value returned is \<open>spam.gv.png\<close>.
\<close>

theorem default_naming_result:
  assumes "outfile c = None" and "format c = Some F" and "filepath c = Some P"
  shows "(\<forall>r. fst (render sys c w) = Inr r \<longrightarrow>
            r = fspath (joinpath (parent (Path P))
                  (name (Path P) @ ''.''
                     @ join_sep ''.'' (List.map_filter id [formatter c, renderer c, Some F]))))
       \<and> (\<forall>r key. fst (render sys c w) = Inr r
              \<and> key = name (Path P) @ ''.''
                        @ join_sep ''.'' (List.map_filter id [formatter c, renderer c, Some F])
              \<and> CHR ''/'' \<notin> set key \<and> key \<noteq> ''.''
            \<longrightarrow> r = (if tail (parent (Path P)) = [] then root (parent (Path P)) @ key
                     else fspath (parent (Path P)) @ ''/'' @ key))
       \<and> (\<forall>cmd. \<not> (raise_if_result_exists c \<and> overwrite_filepath c)
              \<and> command sys (engine c) F (renderer c) (formatter c) = Inr cmd
              \<and> \<not> (raise_if_result_exists c
                    \<and> os_path_exists sys w (fspath (default_result c F (Path P))))
              \<and> fst (run_check sys (cmd @ [''-O'', name (Path P)]) (cwd_of (Path P)) (quiet c) w)
                  = None
            \<longrightarrow> (\<exists>r. fst (render sys c w) = Inr r))
       \<and> (F = ''png'' \<and> P = ''spam.gv'' \<and> renderer c = None \<and> formatter c = None
            \<longrightarrow> (\<forall>r. fst (render sys c w) = Inr r \<longrightarrow> r = ''spam.gv.png''))"
proof -
  let ?key = "name (Path P) @ ''.''
                @ join_sep ''.'' (List.map_filter id [formatter c, renderer c, Some F])"
  let ?q = "parent (Path P)"
  have result: "r = fspath (default_result c F (Path P))" if "fst (render sys c w) = Inr r" for r
  proof -
    from that assms have "fst (render_default sys c F (Path P) w) = Inr r"
      by (simp add: render_def promote_pathlike_def split: if_splits)
    then show ?thesis by (rule render_default_Inr)
  qed
  have first: "r = fspath (joinpath ?q ?key)" if "fst (render sys c w) = Inr r" for r
    using result [OF that] by (simp add: default_result_def Let_def)
  have second: "r = (if tail ?q = [] then root ?q @ ?key else fspath ?q @ ''/'' @ ?key)"
    if "fst (render sys c w) = Inr r" and "CHR ''/'' \<notin> set ?key" and "?key \<noteq> ''.''" for r
  proof -
    have wf: "wf_path ?q" by (simp add: wf_path_Path wf_path_parent)
    have "joinpath ?q ?key = \<lparr>root = root ?q, tail = tail ?q @ [?key]\<rparr>"
      using wf _ that(3,2) by (rule joinpath_component) simp
    with first [OF that(1)]
    have r: "r = fspath \<lparr>root = root ?q, tail = tail ?q @ [?key]\<rparr>" by simp
    show ?thesis
    proof (cases "tail ?q = []")
      case True
      with r show ?thesis by (simp add: fspath_def format_parsed_parts_def)
    next
      case False
      moreover have "list_all (\<lambda>x. x \<noteq> []) (tail ?q)"
        using wf by (auto simp: wf_path_def list_all_iff)
      ultimately have "join_sep ''/'' (tail ?q) \<noteq> []" by (simp add: join_sep_Nil_iff)
      with r False show ?thesis
        by (simp add: fspath_def format_parsed_parts_def join_sep_snoc)
    qed
  qed
  have third: "\<exists>r. fst (render sys c w) = Inr r"
    if "\<not> (raise_if_result_exists c \<and> overwrite_filepath c)
              \<and> command sys (engine c) F (renderer c) (formatter c) = Inr cmd
              \<and> \<not> (raise_if_result_exists c
                    \<and> os_path_exists sys w (fspath (default_result c F (Path P))))
              \<and> fst (run_check sys (cmd @ [''-O'', name (Path P)]) (cwd_of (Path P)) (quiet c) w)
                  = None" for cmd
    using that assms
    by (auto simp: render_def promote_pathlike_def render_default_def render_run_eq Let_def)
  have fourth: "r = ''spam.gv.png''"
    if "F = ''png'' \<and> P = ''spam.gv'' \<and> renderer c = None \<and> formatter c = None"
      and "fst (render sys c w) = Inr r" for r
    using result [OF that(2)] that(1) by (simp add: default_result_spam)
  from first second third fourth show ?thesis by blast
qed

theorem default_naming_result_witness:
  "fst (render (demo_system idle_engine)
          ((default_call ''dot'')\<lparr>format := Some ''png'', filepath := Some ''spam.gv''\<rparr>) [])
     = Inr ''spam.gv.png''"
proof -
  let ?c = "(default_call ''dot'')\<lparr>format := Some ''png'', filepath := Some ''spam.gv''\<rparr>"
  let ?sys = "demo_system idle_engine"
  have h: "outfile ?c = None" "format ?c = Some ''png''" "filepath ?c = Some ''spam.gv''"
    by (simp_all add: default_call_def)
  note t = default_naming_result [OF h, of ?sys "[]"]
  have "\<not> (raise_if_result_exists ?c \<and> overwrite_filepath ?c)
      \<and> command ?sys (engine ?c) ''png'' (renderer ?c) (formatter ?c) = Inr [''dot'', ''-Kdot'', ''-Tpng'']
      \<and> \<not> (raise_if_result_exists ?c
             \<and> os_path_exists ?sys [] (fspath (default_result ?c ''png'' (Path ''spam.gv''))))
      \<and> fst (run_check ?sys ([''dot'', ''-Kdot'', ''-Tpng''] @ [''-O'', name (Path ''spam.gv'')])
                (cwd_of (Path ''spam.gv'')) (quiet ?c) []) = None"
    by (simp add: demo_eval)
  with t obtain r where r: "fst (render ?sys ?c []) = Inr r" by blast
  have "renderer ?c = None \<and> formatter ?c = None" by (simp add: default_call_def)
  with t r have "r = ''spam.gv.png''" by blast
  with r show ?thesis by simp
qed

text \<open>
  Claim C8. With \<open>outfile\<close> given, whatever \<open>render\<close> returns is the string of the
  output path (the given \<open>outfile\<close> promoted to a path); it is absolute exactly when the
  given \<open>outfile\<close> is, so a relative path stays relative; and when the given \<open>outfile\<close>
  already is the string of a path, it is returned character for character. For
  \<open>outfile\<close> \<open>spam.pdf\<close> the value returned is \<open>spam.pdf\<close>; and the call with that
  \<open>outfile\<close> alone does return, with \<open>pdf\<close> supported, the source extension \<open>gv\<close>, and
  a command builder and an engine that succeed: the engine is handed
  \<open>-o spam.pdf spam.gv\<close> and no working directory.
\<close>

theorem explicit_outfile_result:
  assumes "outfile c = Some Out"
  shows "(\<forall>r. fst (render sys c w) = Inr r \<longrightarrow>
            r = fspath (Path Out) \<and> isabs r = isabs Out
          \<and> (\<forall>s. Out = fspath (Path s) \<longrightarrow> r = Out))
       \<and> (Out = ''spam.pdf'' \<longrightarrow> (\<forall>r. fst (render sys c w) = Inr r \<longrightarrow> r = ''spam.pdf''))
       \<and> (\<forall>cmd. Out = ''spam.pdf'' \<and> filepath c = None \<and> format c = None
              \<and> ''pdf'' |\<in>| FORMATS sys \<and> DEFAULT_SOURCE_EXTENSION sys = ''gv''
              \<and> \<not> raise_if_result_exists c
              \<and> command sys (engine c) ''pdf'' (renderer c) (formatter c) = Inr cmd
              \<and> fst (run_check sys (cmd @ [''-o'', ''spam.pdf'', ''spam.gv'']) None (quiet c) w)
                   = None
            \<longrightarrow> fst (render sys c w) = Inr ''spam.pdf'')"
proof -
  have first: "r = fspath (Path Out) \<and> isabs r = isabs Out
          \<and> (\<forall>s. Out = fspath (Path s) \<longrightarrow> r = Out)"
    if "fst (render sys c w) = Inr r" for r
  proof -
    from that assms
    have "fst (render_outfile sys c (Path Out) (promote_pathlike (filepath c)) w) = Inr r"
      by (simp add: render_def promote_pathlike_def split: if_splits)
    then have r: "r = fspath (Path Out)" by (rule render_outfile_Inr)
    have "r = Out" if "Out = fspath (Path s)" for s
      using r that Path_fspath [OF wf_path_Path, of s] by simp
    with r show ?thesis by (simp add: isabs_fspath_Path)
  qed
  have second: "fst (render sys c w) = Inr ''spam.pdf''"
    if a: "Out = ''spam.pdf'' \<and> filepath c = None \<and> format c = None
              \<and> ''pdf'' |\<in>| FORMATS sys \<and> DEFAULT_SOURCE_EXTENSION sys = ''gv''
              \<and> \<not> raise_if_result_exists c
              \<and> command sys (engine c) ''pdf'' (renderer c) (formatter c) = Inr cmd
              \<and> fst (run_check sys (cmd @ [''-o'', ''spam.pdf'', ''spam.gv'']) None (quiet c) w)
                   = None" for cmd
  proof -
    have f: "get_rendering_format (FORMATS sys) (Path ''spam.pdf'') None = (Inr ''pdf'', [])"
      using a by (simp add: get_rendering_format_def infer_rendering_format_eq suffix_spam_pdf
                    lower_def)
    have s: "source_path sys (Path ''spam.pdf'') None = Inr (Path ''spam.gv'')"
      using a by (simp add: source_path_def with_suffix_def startswith_def path_eval)
    have n: "name (Path ''spam.pdf'') = ''spam.pdf''" "name (Path ''spam.gv'') = ''spam.gv''"
      "path_eq (parent (Path ''spam.pdf'')) (parent (Path ''spam.gv''))"
      "cwd_of (Path ''spam.gv'') = None" "fspath (Path ''spam.pdf'') = ''spam.pdf''"
      by (simp_all add: cwd_of_def path_eval)
    show ?thesis
      using assms a f s n
      by (simp add: render_def promote_pathlike_def render_outfile_def render_run_eq Let_def)
  qed
  have example: "r = ''spam.pdf''" if "Out = ''spam.pdf''" and "fst (render sys c w) = Inr r" for r
    using first [OF that(2)] that(1) by (simp add: path_eval)
  from first example second show ?thesis by blast
qed

theorem explicit_outfile_result_witness:
  "fst (render (demo_system idle_engine) ((default_call ''dot'')\<lparr>outfile := Some ''spam.pdf''\<rparr>)
          [''spam.gv''])
     = Inr ''spam.pdf''"
proof -
  let ?c = "(default_call ''dot'')\<lparr>outfile := Some ''spam.pdf''\<rparr>"
  let ?sys = "demo_system idle_engine"
  have h: "outfile ?c = Some ''spam.pdf''" by (simp add: default_call_def)
  note t = explicit_outfile_result [OF h, of ?sys "[''spam.gv'']"]
  have "''spam.pdf'' = ''spam.pdf'' \<and> filepath ?c = None \<and> format ?c = None
              \<and> ''pdf'' |\<in>| FORMATS ?sys \<and> DEFAULT_SOURCE_EXTENSION ?sys = ''gv''
              \<and> \<not> raise_if_result_exists ?c
              \<and> command ?sys (engine ?c) ''pdf'' (renderer ?c) (formatter ?c)
                  = Inr [''dot'', ''-Kdot'', ''-Tpdf'']
              \<and> fst (run_check ?sys ([''dot'', ''-Kdot'', ''-Tpdf''] @ [''-o'', ''spam.pdf'', ''spam.gv''])
                        None (quiet ?c) [''spam.gv'']) = None"
    by (simp add: demo_eval)
  with t show ?thesis by blast
qed

text \<open>
  Claim C9. With \<open>outfile\<close> given, the output argument is the bare name of the output
  path when output and source have the same parent directory, and the string of the
  resolved output path otherwise. Every command line handed to the engine is the built
  command followed by \<open>-o\<close>, that argument and the name of the source file, with the
  directory of the source as working directory. And the engine is handed it: when the
  flags are not both set, format resolution and command construction succeed, the
  source path is there, the same-file test passes and the result is not found existing
  under \<open>raise_if_result_exists\<close>, the events of the call are its warnings, the paths
  it resolved, the existence test if any, and last the one engine run with exactly
  that command line.
\<close>

theorem outfile_argument:
  assumes "outfile c = Some Out"
  shows
    "(\<forall>cmd cwd q. RunCheck cmd cwd q \<in> set (fst (snd (render sys c w))) \<longrightarrow>
        (\<exists>fmt ws prefix src.
           get_rendering_format (FORMATS sys) (Path Out) (format c) = (Inr fmt, ws)
         \<and> command sys (engine c) fmt (renderer c) (formatter c) = Inr prefix
         \<and> source_path sys (Path Out) (promote_pathlike (filepath c)) = Inr src
         \<and> cmd = prefix @ [''-o'',
                            (if path_eq (parent (Path Out)) (parent src) then name (Path Out)
                             else fspath (resolve sys w (Path Out))),
                            name src]
         \<and> cwd = cwd_of src \<and> q = quiet c))
     \<and> (\<forall>fmt ws prefix src.
           \<not> (raise_if_result_exists c \<and> overwrite_filepath c)
         \<and> get_rendering_format (FORMATS sys) (Path Out) (format c) = (Inr fmt, ws)
         \<and> command sys (engine c) fmt (renderer c) (formatter c) = Inr prefix
         \<and> source_path sys (Path Out) (promote_pathlike (filepath c)) = Inr src
         \<and> \<not> ((\<not> overwrite_filepath c \<and> name (Path Out) = name src)
                \<and> path_eq (resolve sys w (Path Out)) (resolve sys w src))
         \<and> \<not> (raise_if_result_exists c \<and> os_path_exists sys w (fspath (Path Out)))
        \<longrightarrow> fst (snd (render sys c w))
              = map WarningsWarn ws
                @ (if \<not> overwrite_filepath c \<and> name (Path Out) = name src
                   then [PathResolve (Path Out), PathResolve src] else [])
                @ (if path_eq (parent (Path Out)) (parent src) then []
                   else [PathResolve (Path Out)])
                @ (if raise_if_result_exists c then [OsPathExists (fspath (Path Out))] else [])
                @ [RunCheck
                     (prefix @ [''-o'',
                                (if path_eq (parent (Path Out)) (parent src)
                                 then name (Path Out)
                                 else fspath (resolve sys w (Path Out))),
                                name src])
                     (cwd_of src) (quiet c)])"
proof -
  let ?out = "Path Out"
  let ?fp = "promote_pathlike (filepath c)"
  have form: "\<exists>fmt ws prefix src.
           get_rendering_format (FORMATS sys) ?out (format c) = (Inr fmt, ws)
         \<and> command sys (engine c) fmt (renderer c) (formatter c) = Inr prefix
         \<and> source_path sys ?out ?fp = Inr src
         \<and> cmd = prefix @ [''-o'',
                            (if path_eq (parent ?out) (parent src) then name ?out
                             else fspath (resolve sys w ?out)),
                            name src]
         \<and> cwd = cwd_of src \<and> q = quiet c"
    if "RunCheck cmd cwd q \<in> set (fst (snd (render sys c w)))" for cmd cwd q
  proof -
    from that assms have "RunCheck cmd cwd q
        \<in> set (fst (snd (render_outfile sys c ?out ?fp w)))"
      by (simp add: render_def promote_pathlike_def split: if_splits)
    then show ?thesis by (rule render_outfile_RunCheck)
  qed
  have handed: "fst (snd (render sys c w))
              = map WarningsWarn ws
                @ (if \<not> overwrite_filepath c \<and> name ?out = name src
                   then [PathResolve ?out, PathResolve src] else [])
                @ (if path_eq (parent ?out) (parent src) then [] else [PathResolve ?out])
                @ (if raise_if_result_exists c then [OsPathExists (fspath ?out)] else [])
                @ [RunCheck
                     (prefix @ [''-o'',
                                (if path_eq (parent ?out) (parent src) then name ?out
                                 else fspath (resolve sys w ?out)),
                                name src])
                     (cwd_of src) (quiet c)]"
    if flags: "\<not> (raise_if_result_exists c \<and> overwrite_filepath c)"
      and g: "get_rendering_format (FORMATS sys) ?out (format c) = (Inr fmt, ws)"
      and k: "command sys (engine c) fmt (renderer c) (formatter c) = Inr prefix"
      and sp: "source_path sys ?out ?fp = Inr src"
      and ns: "\<not> ((\<not> overwrite_filepath c \<and> name ?out = name src)
                \<and> path_eq (resolve sys w ?out) (resolve sys w src))"
      and ne: "\<not> (raise_if_result_exists c \<and> os_path_exists sys w (fspath ?out))"
    for fmt ws prefix src
  proof -
    have "render sys c w = render_outfile sys c ?out ?fp w"
      using assms flags by (rule render_Some_outfile)
    also have "\<dots> = render_run sys c
             (prefix @ [''-o'',
                        (if \<not> path_eq (parent ?out) (parent src) then fspath (resolve sys w ?out)
                         else name ?out),
                        name src])
             src ?out
             ((map WarningsWarn ws
                @ (if \<not> overwrite_filepath c \<and> name ?out = name src
                   then [PathResolve ?out, PathResolve src] else []))
              @ (if \<not> path_eq (parent ?out) (parent src) then [PathResolve ?out] else []))
             w"
      by (simp only: render_outfile_reached [OF g k sp] if_not_P [OF ns])
    finally show ?thesis using ne by (simp add: render_run_eq)
  qed
  from form handed show ?thesis by blast
qed

theorem outfile_argument_witness:
  "fst (snd (render (demo_system idle_engine)
       ((default_call ''dot'')\<lparr>outfile := Some ''spam.pdf''\<rparr>) []))
     = [RunCheck [''dot'', ''-Kdot'', ''-Tpdf'', ''-o'', ''spam.pdf'', ''spam.gv''] None False]
   \<and> fst (snd (render (demo_system idle_engine)
       ((default_call ''dot'')\<lparr>filepath := Some ''src/spam.gv'',
          outfile := Some ''out/spam.pdf''\<rparr>) []))
     = [PathResolve (Path ''out/spam.pdf''),
        RunCheck [''dot'', ''-Kdot'', ''-Tpdf'', ''-o'', ''/work/out/spam.pdf'', ''spam.gv'']
          (Some ''src'') False]
   \<and> (\<exists>fmt ws prefix src.
         get_rendering_format (FORMATS (demo_system idle_engine)) (Path ''out/spam.pdf'') None
           = (Inr fmt, ws)
       \<and> command (demo_system idle_engine) ''dot'' fmt None None = Inr prefix
       \<and> source_path (demo_system idle_engine) (Path ''out/spam.pdf'')
            (Some (Path ''src/spam.gv'')) = Inr src
       \<and> [''dot'', ''-Kdot'', ''-Tpdf'', ''-o'', ''/work/out/spam.pdf'', ''spam.gv'']
           = prefix @ [''-o'',
                       (if path_eq (parent (Path ''out/spam.pdf'')) (parent src)
                        then name (Path ''out/spam.pdf'')
                        else fspath (resolve (demo_system idle_engine) [] (Path ''out/spam.pdf''))),
                       name src]
       \<and> Some ''src'' = cwd_of src)"
proof -
  let ?sys = "demo_system idle_engine"
  let ?pre = "[''dot'', ''-Kdot'', ''-Tpdf'']"
  let ?c = "(default_call ''dot'')\<lparr>outfile := Some ''spam.pdf''\<rparr>"
  let ?d = "(default_call ''dot'')\<lparr>filepath := Some ''src/spam.gv'',
               outfile := Some ''out/spam.pdf''\<rparr>"
  have co: "outfile ?c = Some ''spam.pdf''" by (simp add: default_call_def)
  have cf: "\<not> (raise_if_result_exists ?c \<and> overwrite_filepath ?c)"
    by (simp add: default_call_def)
  have cg: "get_rendering_format (FORMATS ?sys) (Path ''spam.pdf'') (format ?c)
              = (Inr ''pdf'', [])"
    by (simp add: get_rendering_format_def infer_rendering_format_eq suffix_spam_pdf lower_def
          demo_eval)
  have ck: "command ?sys (engine ?c) ''pdf'' (renderer ?c) (formatter ?c) = Inr ?pre"
    by (simp add: demo_eval)
  have cs: "source_path ?sys (Path ''spam.pdf'') (promote_pathlike (filepath ?c))
              = Inr (Path ''spam.gv'')"
    by (simp add: source_path_def promote_pathlike_def with_suffix_def startswith_def
          default_call_def demo_system_def path_eval)
  have cn: "\<not> ((\<not> overwrite_filepath ?c \<and> name (Path ''spam.pdf'') = name (Path ''spam.gv''))
              \<and> path_eq (resolve ?sys [] (Path ''spam.pdf'')) (resolve ?sys [] (Path ''spam.gv'')))"
    by (simp add: path_eval)
  have ce: "\<not> (raise_if_result_exists ?c \<and> os_path_exists ?sys [] (fspath (Path ''spam.pdf'')))"
    by (simp add: default_call_def)
  from outfile_argument [OF co, of ?sys "[]"] cf cg ck cs cn ce
  have "fst (snd (render ?sys ?c []))
      = map WarningsWarn []
        @ (if \<not> overwrite_filepath ?c \<and> name (Path ''spam.pdf'') = name (Path ''spam.gv'')
           then [PathResolve (Path ''spam.pdf''), PathResolve (Path ''spam.gv'')] else [])
        @ (if path_eq (parent (Path ''spam.pdf'')) (parent (Path ''spam.gv'')) then []
           else [PathResolve (Path ''spam.pdf'')])
        @ (if raise_if_result_exists ?c then [OsPathExists (fspath (Path ''spam.pdf''))] else [])
        @ [RunCheck
             (?pre @ [''-o'',
                      (if path_eq (parent (Path ''spam.pdf'')) (parent (Path ''spam.gv''))
                       then name (Path ''spam.pdf'')
                       else fspath (resolve ?sys [] (Path ''spam.pdf''))),
                      name (Path ''spam.gv'')])
             (cwd_of (Path ''spam.gv'')) (quiet ?c)]"
    by blast
  then have same: "fst (snd (render ?sys ?c []))
      = [RunCheck [''dot'', ''-Kdot'', ''-Tpdf'', ''-o'', ''spam.pdf'', ''spam.gv''] None False]"
    by (simp add: cwd_of_def default_call_def path_eval)
  have do: "outfile ?d = Some ''out/spam.pdf''" by (simp add: default_call_def)
  have df: "\<not> (raise_if_result_exists ?d \<and> overwrite_filepath ?d)"
    by (simp add: default_call_def)
  have ds: "suffix (Path ''out/spam.pdf'') = ''.pdf''" by (simp add: path_eval)
  have dg: "get_rendering_format (FORMATS ?sys) (Path ''out/spam.pdf'') (format ?d)
              = (Inr ''pdf'', [])"
    by (simp add: get_rendering_format_def infer_rendering_format_eq ds lower_def demo_eval)
  have dk: "command ?sys (engine ?d) ''pdf'' (renderer ?d) (formatter ?d) = Inr ?pre"
    by (simp add: demo_eval)
  have dp: "source_path ?sys (Path ''out/spam.pdf'') (promote_pathlike (filepath ?d))
              = Inr (Path ''src/spam.gv'')"
    by (simp add: source_path_def promote_pathlike_def default_call_def)
  have dn: "\<not> ((\<not> overwrite_filepath ?d
                \<and> name (Path ''out/spam.pdf'') = name (Path ''src/spam.gv''))
              \<and> path_eq (resolve ?sys [] (Path ''out/spam.pdf''))
                   (resolve ?sys [] (Path ''src/spam.gv'')))"
    by (simp add: path_eval)
  have de: "\<not> (raise_if_result_exists ?d
               \<and> os_path_exists ?sys [] (fspath (Path ''out/spam.pdf'')))"
    by (simp add: default_call_def)
  from outfile_argument [OF do, of ?sys "[]"] df dg dk dp dn de
  have "fst (snd (render ?sys ?d []))
      = map WarningsWarn []
        @ (if \<not> overwrite_filepath ?d
              \<and> name (Path ''out/spam.pdf'') = name (Path ''src/spam.gv'')
           then [PathResolve (Path ''out/spam.pdf''), PathResolve (Path ''src/spam.gv'')] else [])
        @ (if path_eq (parent (Path ''out/spam.pdf'')) (parent (Path ''src/spam.gv'')) then []
           else [PathResolve (Path ''out/spam.pdf'')])
        @ (if raise_if_result_exists ?d then [OsPathExists (fspath (Path ''out/spam.pdf''))]
           else [])
        @ [RunCheck
             (?pre @ [''-o'',
                      (if path_eq (parent (Path ''out/spam.pdf'')) (parent (Path ''src/spam.gv''))
                       then name (Path ''out/spam.pdf'')
                       else fspath (resolve ?sys [] (Path ''out/spam.pdf''))),
                      name (Path ''src/spam.gv'')])
             (cwd_of (Path ''src/spam.gv'')) (quiet ?d)]"
    by blast
  then have differ: "fst (snd (render ?sys ?d []))
      = [PathResolve (Path ''out/spam.pdf''),
         RunCheck [''dot'', ''-Kdot'', ''-Tpdf'', ''-o'', ''/work/out/spam.pdf'', ''spam.gv'']
           (Some ''src'') False]"
    by (simp add: cwd_of_def default_call_def path_eval demo_eval)
  then have "RunCheck [''dot'', ''-Kdot'', ''-Tpdf'', ''-o'', ''/work/out/spam.pdf'', ''spam.gv'']
           (Some ''src'') False \<in> set (fst (snd (render ?sys ?d [])))"
    by simp
  with outfile_argument [OF do, of ?sys "[]"]
  have "\<exists>fmt ws prefix src.
           get_rendering_format (FORMATS ?sys) (Path ''out/spam.pdf'') (format ?d) = (Inr fmt, ws)
         \<and> command ?sys (engine ?d) fmt (renderer ?d) (formatter ?d) = Inr prefix
         \<and> source_path ?sys (Path ''out/spam.pdf'') (promote_pathlike (filepath ?d)) = Inr src
         \<and> [''dot'', ''-Kdot'', ''-Tpdf'', ''-o'', ''/work/out/spam.pdf'', ''spam.gv'']
             = prefix @ [''-o'',
                         (if path_eq (parent (Path ''out/spam.pdf'')) (parent src)
                          then name (Path ''out/spam.pdf'')
                          else fspath (resolve ?sys [] (Path ''out/spam.pdf''))),
                         name src]
         \<and> Some ''src'' = cwd_of src \<and> False = quiet ?d"
    by blast
  then have ex: "\<exists>fmt ws prefix src.
         get_rendering_format (FORMATS ?sys) (Path ''out/spam.pdf'') None = (Inr fmt, ws)
       \<and> command ?sys ''dot'' fmt None None = Inr prefix
       \<and> source_path ?sys (Path ''out/spam.pdf'') (Some (Path ''src/spam.gv'')) = Inr src
       \<and> [''dot'', ''-Kdot'', ''-Tpdf'', ''-o'', ''/work/out/spam.pdf'', ''spam.gv'']
           = prefix @ [''-o'',
                       (if path_eq (parent (Path ''out/spam.pdf'')) (parent src)
                        then name (Path ''out/spam.pdf'')
                        else fspath (resolve ?sys [] (Path ''out/spam.pdf''))),
                       name src]
       \<and> Some ''src'' = cwd_of src"
    by (simp add: default_call_def promote_pathlike_def)
  from same differ ex show ?thesis by blast
qed

text \<open>
  Claim C4, as stated, fails: with \<open>outfile\<close> \<open>spam\<close> and \<open>filepath\<close> \<open>spam\<close>, the flag
  off, the two names are equal and the two paths resolve alike, yet \<open>render\<close> raises
  the required-argument error of format resolution, which comes first, and not the
  same-file error.
\<close>

theorem same_file_check_counterexample:
  "\<not> overwrite_filepath ((default_call ''dot'')\<lparr>filepath := Some ''spam'', outfile := Some ''spam''\<rparr>)
   \<and> name (Path ''spam'') = name (Path ''spam'')
   \<and> path_eq (demo_resolve [] (Path ''spam'')) (demo_resolve [] (Path ''spam''))
   \<and> fst (render (demo_system idle_engine)
            ((default_call ''dot'')\<lparr>filepath := Some ''spam'', outfile := Some ''spam''\<rparr>) [])
       = Inl (Raised (CannotInferFormat [] ''spam'' (get_supported_suffixes demo_formats)))
   \<and> fst (render (demo_system idle_engine)
            ((default_call ''dot'')\<lparr>filepath := Some ''spam'', outfile := Some ''spam''\<rparr>) [])
       \<noteq> Inl (Raised (SameFile ''spam'' ''spam''))"
proof -
  have s: "suffix (Path ''spam'') = []" "fspath (Path ''spam'') = ''spam''"
    by (simp_all add: path_eval)
  have "get_rendering_format demo_formats (Path ''spam'') None
      = (Inl (CannotInferFormat [] ''spam'' (get_supported_suffixes demo_formats)), [])"
    by (simp add: get_rendering_format_def infer_rendering_format_eq s)
  then have "fst (render (demo_system idle_engine)
            ((default_call ''dot'')\<lparr>filepath := Some ''spam'', outfile := Some ''spam''\<rparr>) [])
       = Inl (Raised (CannotInferFormat [] ''spam'' (get_supported_suffixes demo_formats)))"
    by (simp add: render_def promote_pathlike_def render_outfile_def default_call_def
          demo_system_def)
  then show ?thesis by (simp add: default_call_def path_eq_def)
qed

text \<open>
  Claim C4, amended. In explicit-output mode, when format resolution and command
  construction succeed and the source path is there (given, or derived from the output
  path), and the names of output and source path are equal and their resolved forms
  are equal: with \<open>overwrite_filepath\<close> off \<open>render\<close> raises the same-file error, the
  engine is not run and the state is unchanged; the same call with
  \<open>overwrite_filepath\<close> on does not raise that error.
\<close>

theorem same_file_check:
  assumes "outfile c = Some Out"
    and "get_rendering_format (FORMATS sys) (Path Out) (format c) = (Inr fmt, ws)"
    and "command sys (engine c) fmt (renderer c) (formatter c) = Inr prefix"
    and "source_path sys (Path Out) (promote_pathlike (filepath c)) = Inr src"
    and "name (Path Out) = name src"
    and "path_eq (resolve sys w (Path Out)) (resolve sys w src)"
  shows "(\<not> overwrite_filepath c \<longrightarrow>
            fst (render sys c w) = Inl (Raised (SameFile (name (Path Out)) (name src)))
          \<and> \<not> engine_invoked (fst (snd (render sys c w)))
          \<and> snd (snd (render sys c w)) = w)
       \<and> (\<forall>a b. fst (render sys (c\<lparr>overwrite_filepath := True\<rparr>) w)
                  \<noteq> Inl (Raised (SameFile a b)))"
proof -
  have "render sys c w
      = (Inl (Raised (SameFile (name (Path Out)) (name src))),
         map WarningsWarn ws @ [PathResolve (Path Out), PathResolve src], w)"
    if "\<not> overwrite_filepath c"
    using that assms(1,5,6)
    by (simp add: render_Some_outfile render_outfile_reached [OF assms(2,3,4)])
  moreover have "fst (render sys (c\<lparr>overwrite_filepath := True\<rparr>) w)
                  \<noteq> Inl (Raised (SameFile a b))" for a b
    by (rule render_overwrite) simp
  ultimately show ?thesis by simp
qed

theorem same_file_check_witness:
  "fst (render (demo_system idle_engine)
          ((default_call ''dot'')\<lparr>filepath := Some ''spam.gv'', outfile := Some ''./spam.gv''\<rparr>) [])
     = Inl (Raised (SameFile ''spam.gv'' ''spam.gv''))
   \<and> fst (render (demo_system idle_engine)
          ((default_call ''dot'')\<lparr>filepath := Some ''spam.gv'', outfile := Some ''./spam.gv'',
             overwrite_filepath := True\<rparr>) [])
     \<noteq> Inl (Raised (SameFile ''spam.gv'' ''spam.gv''))"
proof -
  let ?c = "(default_call ''dot'')\<lparr>filepath := Some ''spam.gv'', outfile := Some ''./spam.gv''\<rparr>"
  let ?sys = "demo_system idle_engine"
  have o: "outfile ?c = Some ''./spam.gv''" by (simp add: default_call_def)
  have s: "suffix (Path ''./spam.gv'') = ''.gv''" by (simp add: path_eval)
  have g: "get_rendering_format (FORMATS ?sys) (Path ''./spam.gv'') (format ?c) = (Inr ''gv'', [])"
    by (simp add: get_rendering_format_def infer_rendering_format_eq s lower_def demo_eval)
  have k: "command ?sys (engine ?c) ''gv'' (renderer ?c) (formatter ?c)
             = Inr [''dot'', ''-Kdot'', ''-Tgv'']"
    by (simp add: demo_eval)
  have p: "source_path ?sys (Path ''./spam.gv'') (promote_pathlike (filepath ?c))
             = Inr (Path ''spam.gv'')"
    by (simp add: source_path_def promote_pathlike_def default_call_def)
  have n: "name (Path ''./spam.gv'') = name (Path ''spam.gv'')" by (simp add: path_eval)
  have r: "path_eq (resolve ?sys [] (Path ''./spam.gv'')) (resolve ?sys [] (Path ''spam.gv''))"
    by (simp add: path_eval demo_eval)
  have nm: "name (Path ''./spam.gv'') = ''spam.gv''" "name (Path ''spam.gv'') = ''spam.gv''"
    by (simp_all add: path_eval)
  have ov: "\<not> overwrite_filepath ?c" by (simp add: default_call_def)
  have eq: "?c\<lparr>overwrite_filepath := True\<rparr>
      = (default_call ''dot'')\<lparr>filepath := Some ''spam.gv'', outfile := Some ''./spam.gv'',
             overwrite_filepath := True\<rparr>" by simp
  from same_file_check [OF o g k p n r] ov nm eq show ?thesis by simp
qed

text \<open>
  Claim C6, as stated, fails in its second half: with a stub engine that always
  succeeds and writes nothing, the call with format \<open>png\<close>, filepath \<open>spam.gv\<close> and
  \<open>raise_if_result_exists\<close> succeeds and leaves the state as it was, so the second
  identical call is the same call in the same state and succeeds again instead of
  raising the result-exists error.
\<close>

theorem result_exists_check_counterexample:
  "render (demo_system idle_engine)
     ((default_call ''dot'')\<lparr>format := Some ''png'', filepath := Some ''spam.gv'',
        raise_if_result_exists := True\<rparr>) []
   = (Inr ''spam.gv.png'',
      [OsPathExists ''spam.gv.png'',
       RunCheck [''dot'', ''-Kdot'', ''-Tpng'', ''-O'', ''spam.gv''] None False], [])
   \<and> fst (render (demo_system idle_engine)
            ((default_call ''dot'')\<lparr>format := Some ''png'', filepath := Some ''spam.gv'',
               raise_if_result_exists := True\<rparr>) [])
       \<noteq> Inl (Raised (OutputFileExists ''spam.gv.png''))"
proof -
  let ?c = "(default_call ''dot'')\<lparr>format := Some ''png'', filepath := Some ''spam.gv'',
        raise_if_result_exists := True\<rparr>"
  let ?sys = "demo_system idle_engine"
  have c: "outfile ?c = None" "format ?c = Some ''png''" "filepath ?c = Some ''spam.gv''"
    "\<not> (raise_if_result_exists ?c \<and> overwrite_filepath ?c)" "renderer ?c = None"
    "formatter ?c = None"
    by (simp_all add: default_call_def)
  have k: "command ?sys (engine ?c) ''png'' (renderer ?c) (formatter ?c)
             = Inr [''dot'', ''-Kdot'', ''-Tpng'']"
    by (simp add: demo_eval)
  have d: "fspath (default_result ?c ''png'' (Path ''spam.gv'')) = ''spam.gv.png''"
    using c(5,6) by (rule default_result_spam)
  have n: "name (Path ''spam.gv'') = ''spam.gv''" "cwd_of (Path ''spam.gv'') = None"
    by (simp_all add: cwd_of_def path_eval)
  have "render ?sys ?c [] = (Inr ''spam.gv.png'',
      [OsPathExists ''spam.gv.png'',
       RunCheck [''dot'', ''-Kdot'', ''-Tpng'', ''-O'', ''spam.gv''] None False], [])"
    unfolding render_None_outfile [OF c(1,2,3,4)] render_default_reached [OF k] render_run_eq d n
    by (simp add: demo_eval)
  then show ?thesis by simp
qed

text \<open>
  Claim C6, amended. Let \<open>raise_if_result_exists\<close> be set (and \<open>overwrite_filepath\<close>
  not, so that the first check passes). In either mode, when the call gets as far as
  computing its result path (format resolution or required arguments, command
  construction and, in explicit-output mode, the source path and the same-file check
  pass) and a file exists at that path, \<open>render\<close> raises the result-exists error, the
  engine is not run and the state is unchanged. Consequently a second identical call
  after a successful first one raises that error whenever the first run left a file at
  the result path and did not change how paths resolve.
\<close>

theorem result_exists_check:
  assumes "raise_if_result_exists c" and "\<not> overwrite_filepath c"
  shows
   "(\<forall>Out fmt ws prefix src.
        outfile c = Some Out
      \<and> get_rendering_format (FORMATS sys) (Path Out) (format c) = (Inr fmt, ws)
      \<and> command sys (engine c) fmt (renderer c) (formatter c) = Inr prefix
      \<and> source_path sys (Path Out) (promote_pathlike (filepath c)) = Inr src
      \<and> \<not> (name (Path Out) = name src
             \<and> path_eq (resolve sys w (Path Out)) (resolve sys w src))
      \<and> os_path_exists sys w (fspath (Path Out))
      \<longrightarrow> fst (render sys c w) = Inl (Raised (OutputFileExists (fspath (Path Out))))
          \<and> \<not> engine_invoked (fst (snd (render sys c w)))
          \<and> snd (snd (render sys c w)) = w)
    \<and> (\<forall>F P prefix.
        outfile c = None \<and> format c = Some F \<and> filepath c = Some P
      \<and> command sys (engine c) F (renderer c) (formatter c) = Inr prefix
      \<and> os_path_exists sys w (fspath (default_result c F (Path P)))
      \<longrightarrow> fst (render sys c w)
            = Inl (Raised (OutputFileExists (fspath (default_result c F (Path P)))))
          \<and> \<not> engine_invoked (fst (snd (render sys c w)))
          \<and> snd (snd (render sys c w)) = w)
    \<and> (\<forall>r evs w1.
        render sys c w = (Inr r, evs, w1) \<and> os_path_exists sys w1 r
      \<and> resolve sys w1 = resolve sys w
      \<longrightarrow> fst (render sys c w1) = Inl (Raised (OutputFileExists r))
          \<and> \<not> engine_invoked (fst (snd (render sys c w1)))
          \<and> snd (snd (render sys c w1)) = w1)"
proof -
  have flags: "\<not> (raise_if_result_exists c \<and> overwrite_filepath c)" using assms by simp
  have explicit: "fst (render sys c v) = Inl (Raised (OutputFileExists (fspath (Path Out))))
          \<and> \<not> engine_invoked (fst (snd (render sys c v)))
          \<and> snd (snd (render sys c v)) = v"
    if "outfile c = Some Out"
      and "get_rendering_format (FORMATS sys) (Path Out) (format c) = (Inr fmt, ws)"
      and "command sys (engine c) fmt (renderer c) (formatter c) = Inr prefix"
      and "source_path sys (Path Out) (promote_pathlike (filepath c)) = Inr src"
      and "\<not> (name (Path Out) = name src
             \<and> path_eq (resolve sys v (Path Out)) (resolve sys v src))"
      and "os_path_exists sys v (fspath (Path Out))"
    for Out fmt ws prefix src v
  proof -
    from that(5) have "\<not> ((\<not> overwrite_filepath c \<and> name (Path Out) = name src)
            \<and> path_eq (resolve sys v (Path Out)) (resolve sys v src))" by blast
    from render_outfile_exists [OF that(2,3,4) this assms(1) that(6)]
    show ?thesis by (simp add: render_Some_outfile [OF that(1) flags])
  qed
  have default: "fst (render sys c v)
            = Inl (Raised (OutputFileExists (fspath (default_result c F (Path P)))))
          \<and> \<not> engine_invoked (fst (snd (render sys c v)))
          \<and> snd (snd (render sys c v)) = v"
    if "outfile c = None" and "format c = Some F" and "filepath c = Some P"
      and "command sys (engine c) F (renderer c) (formatter c) = Inr prefix"
      and "os_path_exists sys v (fspath (default_result c F (Path P)))"
    for F P prefix v
    using render_default_exists [OF that(4) assms(1) that(5)]
    by (simp add: render_None_outfile [OF that(1,2,3) flags])
  have again: "fst (render sys c w1) = Inl (Raised (OutputFileExists r))
          \<and> \<not> engine_invoked (fst (snd (render sys c w1)))
          \<and> snd (snd (render sys c w1)) = w1"
    if first: "render sys c w = (Inr r, evs, w1)" and ex: "os_path_exists sys w1 r"
      and res: "resolve sys w1 = resolve sys w"
    for r evs w1
  proof (cases "outfile c")
    case (Some Out)
    from first have "fst (render_outfile sys c (Path Out) (promote_pathlike (filepath c)) w) = Inr r"
      by (simp add: render_Some_outfile [OF Some flags])
    from render_outfile_Inr_cases [OF this] obtain fmt ws prefix src where
      f: "get_rendering_format (FORMATS sys) (Path Out) (format c) = (Inr fmt, ws)"
        "command sys (engine c) fmt (renderer c) (formatter c) = Inr prefix"
        "source_path sys (Path Out) (promote_pathlike (filepath c)) = Inr src"
        "\<not> ((\<not> overwrite_filepath c \<and> name (Path Out) = name src)
                \<and> path_eq (resolve sys w (Path Out)) (resolve sys w src))"
        "r = fspath (Path Out)"
      by blast
    from f(4) assms(2) res
    have "\<not> (name (Path Out) = name src
             \<and> path_eq (resolve sys w1 (Path Out)) (resolve sys w1 src))" by simp
    from explicit [OF Some f(1,2,3) this] ex f(5) show ?thesis by simp
  next
    case None
    from first flags None obtain F where F: "format c = Some F"
      by (cases "format c") (auto simp: render_def promote_pathlike_def)
    from first flags None F obtain P where P: "filepath c = Some P"
      by (cases "filepath c") (auto simp: render_def promote_pathlike_def)
    from first have d: "fst (render_default sys c F (Path P) w) = Inr r"
      by (simp add: render_None_outfile [OF None F P flags])
    from render_default_Inr_cases [OF d] obtain prefix where
      k: "command sys (engine c) F (renderer c) (formatter c) = Inr prefix" by blast
    from render_default_Inr [OF d] have "r = fspath (default_result c F (Path P))" .
    with default [OF None F P k] ex show ?thesis by simp
  qed
  from explicit [where v = w] default [where v = w] again show ?thesis by blast
qed

theorem result_exists_check_witness:
  "fst (render (demo_system (writing_engine ''spam.gv.png''))
          ((default_call ''dot'')\<lparr>format := Some ''png'', filepath := Some ''spam.gv'',
             raise_if_result_exists := True\<rparr>) [])
     = Inr ''spam.gv.png''
   \<and> fst (render (demo_system (writing_engine ''spam.gv.png''))
          ((default_call ''dot'')\<lparr>format := Some ''png'', filepath := Some ''spam.gv'',
             raise_if_result_exists := True\<rparr>) [''spam.gv.png''])
     = Inl (Raised (OutputFileExists ''spam.gv.png''))
   \<and> fst (render (demo_system idle_engine)
          ((default_call ''dot'')\<lparr>outfile := Some ''spam.pdf'', raise_if_result_exists := True\<rparr>)
          [''spam.pdf''])
     = Inl (Raised (OutputFileExists ''spam.pdf''))"
proof -
  let ?c = "(default_call ''dot'')\<lparr>format := Some ''png'', filepath := Some ''spam.gv'',
        raise_if_result_exists := True\<rparr>"
  let ?sys = "demo_system (writing_engine ''spam.gv.png'')"
  have c: "outfile ?c = None" "format ?c = Some ''png''" "filepath ?c = Some ''spam.gv''"
    "\<not> (raise_if_result_exists ?c \<and> overwrite_filepath ?c)" "renderer ?c = None"
    "formatter ?c = None"
    by (simp_all add: default_call_def)
  have fl: "raise_if_result_exists ?c" "\<not> overwrite_filepath ?c"
    by (simp_all add: default_call_def)
  have k: "command ?sys (engine ?c) ''png'' (renderer ?c) (formatter ?c)
             = Inr [''dot'', ''-Kdot'', ''-Tpng'']"
    by (simp add: demo_eval)
  have d: "fspath (default_result ?c ''png'' (Path ''spam.gv'')) = ''spam.gv.png''"
    using c(5,6) by (rule default_result_spam)
  have n: "name (Path ''spam.gv'') = ''spam.gv''" "cwd_of (Path ''spam.gv'') = None"
    by (simp_all add: cwd_of_def path_eval)
  have first: "render ?sys ?c [] = (Inr ''spam.gv.png'',
      [OsPathExists ''spam.gv.png'',
       RunCheck [''dot'', ''-Kdot'', ''-Tpng'', ''-O'', ''spam.gv''] None False],
      [''spam.gv.png''])"
    unfolding render_None_outfile [OF c(1,2,3,4)] render_default_reached [OF k] render_run_eq d n
    by (simp add: demo_eval)
  have ex: "os_path_exists ?sys [''spam.gv.png''] ''spam.gv.png''"
    by (simp add: demo_eval)
  have res: "resolve ?sys [''spam.gv.png''] = resolve ?sys []"
    by (simp add: fun_eq_iff demo_eval)
  from result_exists_check [OF fl, of ?sys "[]"] first ex res
  have second: "fst (render ?sys ?c [''spam.gv.png''])
      = Inl (Raised (OutputFileExists ''spam.gv.png''))"
    by blast
  let ?e = "(default_call ''dot'')\<lparr>outfile := Some ''spam.pdf'', raise_if_result_exists := True\<rparr>"
  let ?idle = "demo_system idle_engine"
  have e: "outfile ?e = Some ''spam.pdf''" "raise_if_result_exists ?e"
    "\<not> overwrite_filepath ?e"
    by (simp_all add: default_call_def)
  have g: "get_rendering_format (FORMATS ?idle) (Path ''spam.pdf'') (format ?e) = (Inr ''pdf'', [])"
    by (simp add: get_rendering_format_def infer_rendering_format_eq suffix_spam_pdf lower_def
          demo_eval)
  have ke: "command ?idle (engine ?e) ''pdf'' (renderer ?e) (formatter ?e)
              = Inr [''dot'', ''-Kdot'', ''-Tpdf'']"
    by (simp add: demo_eval)
  have sp: "source_path ?idle (Path ''spam.pdf'') (promote_pathlike (filepath ?e))
              = Inr (Path ''spam.gv'')"
    by (simp add: source_path_def promote_pathlike_def with_suffix_def startswith_def
          default_call_def demo_system_def path_eval)
  have nn: "\<not> (name (Path ''spam.pdf'') = name (Path ''spam.gv'')
             \<and> path_eq (resolve ?idle [''spam.pdf''] (Path ''spam.pdf''))
                  (resolve ?idle [''spam.pdf''] (Path ''spam.gv'')))"
    by (simp add: path_eval)
  have xe: "os_path_exists ?idle [''spam.pdf''] (fspath (Path ''spam.pdf''))"
    by (simp add: demo_eval path_eval)
  have fp: "fspath (Path ''spam.pdf'') = ''spam.pdf''" by (simp add: path_eval)
  from result_exists_check [OF e(2,3), of ?idle "[''spam.pdf'']"] e(1) g ke sp nn xe
  have "fst (render ?idle ?e [''spam.pdf''])
      = Inl (Raised (OutputFileExists (fspath (Path ''spam.pdf''))))"
    by blast
  with first second fp show ?thesis by simp
qed

text \<open>
  Claim C10, as stated, fails: with \<open>outfile\<close> \<open>spam.gv\<close>, no \<open>filepath\<close>, the flag off,
  the explicit format \<open>png\<close> and a formatter given without a renderer, format
  resolution succeeds (it returns \<open>png\<close> with a mismatch warning) but the command
  builder raises, which comes before the source path is derived: \<open>render\<close> raises that
  error and not the same-file error.
\<close>

theorem source_named_outfile_counterexample:
  "suffix (Path ''spam.gv'') = ''.'' @ DEFAULT_SOURCE_EXTENSION (demo_system idle_engine)
   \<and> get_rendering_format (FORMATS (demo_system idle_engine)) (Path ''spam.gv'') (Some ''png'')
       = (Inr ''png'', [FormatSuffixMismatchWarning ''gv'' ''png''])
   \<and> fst (render (demo_system idle_engine)
            ((default_call ''dot'')\<lparr>format := Some ''png'', formatter := Some ''cairo'',
               outfile := Some ''spam.gv''\<rparr>) [])
       = Inl (CommandRaised FormatterWithoutRenderer)
   \<and> fst (render (demo_system idle_engine)
            ((default_call ''dot'')\<lparr>format := Some ''png'', formatter := Some ''cairo'',
               outfile := Some ''spam.gv''\<rparr>) [])
       \<noteq> Inl (Raised (SameFile ''spam.gv'' ''spam.gv''))"
proof -
  have s: "suffix (Path ''spam.gv'') = ''.gv''" by (simp add: path_eval)
  have g: "get_rendering_format (FORMATS (demo_system idle_engine)) (Path ''spam.gv'')
             (Some ''png'')
       = (Inr ''png'', [FormatSuffixMismatchWarning ''gv'' ''png''])"
    by (simp add: get_rendering_format_def infer_rendering_format_eq s lower_def demo_eval)
  have "fst (render (demo_system idle_engine)
            ((default_call ''dot'')\<lparr>format := Some ''png'', formatter := Some ''cairo'',
               outfile := Some ''spam.gv''\<rparr>) [])
       = Inl (CommandRaised FormatterWithoutRenderer)"
    using g by (simp add: render_def promote_pathlike_def render_outfile_def default_call_def
                  demo_system_def demo_command_def)
  with s g show ?thesis by (simp add: demo_system_def)
qed

text \<open>
  Claim C10, amended. With \<open>outfile\<close> given, \<open>filepath\<close> absent, the suffix of the output
  path equal to a dot and the default source extension, and format resolution
  succeeding: the derived source path is the output path itself; with
  \<open>overwrite_filepath\<close> off, \<open>render\<close> raises the same-file error whenever command
  construction succeeds, and in every case returns no result, runs no engine and
  leaves the state unchanged; with \<open>overwrite_filepath\<close> on it does not raise the
  same-file error.
\<close>

theorem source_named_outfile:
  assumes "outfile c = Some Out" and "filepath c = None"
    and "suffix (Path Out) = ''.'' @ DEFAULT_SOURCE_EXTENSION sys"
    and "get_rendering_format (FORMATS sys) (Path Out) (format c) = (Inr fmt, ws)"
  shows "source_path sys (Path Out) (promote_pathlike (filepath c)) = Inr (Path Out)
       \<and> (\<not> overwrite_filepath c \<longrightarrow>
            (\<forall>prefix. command sys (engine c) fmt (renderer c) (formatter c) = Inr prefix
               \<longrightarrow> fst (render sys c w)
                     = Inl (Raised (SameFile (name (Path Out)) (name (Path Out)))))
          \<and> (\<forall>r. fst (render sys c w) \<noteq> Inr r)
          \<and> \<not> engine_invoked (fst (snd (render sys c w)))
          \<and> snd (snd (render sys c w)) = w)
       \<and> (overwrite_filepath c \<longrightarrow>
            (\<forall>a b. fst (render sys c w) \<noteq> Inl (Raised (SameFile a b))))"
proof -
  have sp: "source_path sys (Path Out) (promote_pathlike (filepath c)) = Inr (Path Out)"
    using assms(2) source_path_same [OF assms(3)] by (simp add: promote_pathlike_def)
  have r: "render sys c w = render_outfile sys c (Path Out) (promote_pathlike (filepath c)) w"
    if "\<not> overwrite_filepath c"
    using that assms(1) by (simp add: render_Some_outfile)
  have same: "render sys c w
      = (Inl (Raised (SameFile (name (Path Out)) (name (Path Out)))),
         map WarningsWarn ws @ [PathResolve (Path Out), PathResolve (Path Out)], w)"
    if "\<not> overwrite_filepath c"
      and "command sys (engine c) fmt (renderer c) (formatter c) = Inr prefix" for prefix
    using that by (simp add: r render_outfile_reached [OF assms(4) that(2) sp] path_eq_def)
  have fail: "render sys c w = (Inl (CommandRaised e), map WarningsWarn ws, w)"
    if "\<not> overwrite_filepath c"
      and "command sys (engine c) fmt (renderer c) (formatter c) = Inl e" for e
    using that assms(4) by (simp add: r render_outfile_def)
  have never: "(\<forall>r. fst (render sys c w) \<noteq> Inr r)
          \<and> \<not> engine_invoked (fst (snd (render sys c w)))
          \<and> snd (snd (render sys c w)) = w"
    if "\<not> overwrite_filepath c"
  proof (cases "command sys (engine c) fmt (renderer c) (formatter c)")
    case (Inl e)
    from fail [OF that Inl] show ?thesis by simp
  next
    case (Inr prefix)
    from same [OF that Inr] show ?thesis by simp
  qed
  have "fst (render sys c w) \<noteq> Inl (Raised (SameFile a b))" if "overwrite_filepath c" for a b
    using that by (rule render_overwrite)
  with sp same never show ?thesis by simp
qed

theorem source_named_outfile_witness:
  "fst (render (demo_system idle_engine) ((default_call ''dot'')\<lparr>outfile := Some ''spam.gv''\<rparr>) [])
     = Inl (Raised (SameFile ''spam.gv'' ''spam.gv''))
   \<and> fst (render (demo_system idle_engine)
          ((default_call ''dot'')\<lparr>outfile := Some ''spam.gv'', overwrite_filepath := True\<rparr>) [])
     \<noteq> Inl (Raised (SameFile ''spam.gv'' ''spam.gv''))"
proof -
  let ?c = "(default_call ''dot'')\<lparr>outfile := Some ''spam.gv''\<rparr>"
  let ?d = "(default_call ''dot'')\<lparr>outfile := Some ''spam.gv'', overwrite_filepath := True\<rparr>"
  let ?sys = "demo_system idle_engine"
  have s: "suffix (Path ''spam.gv'') = ''.gv''" by (simp add: path_eval)
  have e: "suffix (Path ''spam.gv'') = ''.'' @ DEFAULT_SOURCE_EXTENSION ?sys"
    by (simp add: s demo_system_def)
  have g: "get_rendering_format (FORMATS ?sys) (Path ''spam.gv'') None = (Inr ''gv'', [])"
    by (simp add: get_rendering_format_def infer_rendering_format_eq s lower_def demo_eval)
  have k: "command ?sys ''dot'' ''gv'' None None = Inr [''dot'', ''-Kdot'', ''-Tgv'']"
    by (simp add: demo_eval)
  have n: "name (Path ''spam.gv'') = ''spam.gv''" by (simp add: path_eval)
  have c: "outfile ?c = Some ''spam.gv''" "filepath ?c = None" "format ?c = None"
    "\<not> overwrite_filepath ?c" "engine ?c = ''dot''" "renderer ?c = None" "formatter ?c = None"
    by (simp_all add: default_call_def)
  have d: "outfile ?d = Some ''spam.gv''" "filepath ?d = None" "format ?d = None"
    "overwrite_filepath ?d"
    by (simp_all add: default_call_def)
  from source_named_outfile [of ?c "''spam.gv''" ?sys "''gv''" "[]" "[]"] c e g k n
  have a: "fst (render ?sys ?c []) = Inl (Raised (SameFile ''spam.gv'' ''spam.gv''))"
    by simp
  from source_named_outfile [of ?d "''spam.gv''" ?sys "''gv''" "[]" "[]"] d e g
  have b: "fst (render ?sys ?d []) \<noteq> Inl (Raised (SameFile ''spam.gv'' ''spam.gv''))"
    by simp
  from a b show ?thesis by simp
qed

end
